theory Spec2Isabelle
  imports Complex_Main "HOL-Library.Log_Nat"
begin

section \<open>The quantisation cell of the MNIST notebook\<close>

text \<open>
  The code under study is cell 13 of \<^verbatim>\<open>examples/mnist/mnist_pytorch.ipynb\<close>:
  \<^verbatim>\<open>
  def to_fixed_point(val, bits):
      return round(val * (2**bits))

  def mnist_image_to_fixed_point(data):
      return [to_fixed_point(val.item(), 16) for val in data]

  def generate_input_cairo(data):
      values = mnist_image_to_fixed_point(data)
      values = [f"FixedTrait::<FP16x16>::new({val}, {'true' if val < 0 else 'false'})" for val in values]
      return ",\n ".join(values)

  input_cairo = generate_input_cairo(example_data[0])

  with open("mnist_cairo/src/input.cairo", "w") as f:
      f.write(...)
      f.write(input_cairo)
      f.write(...)
  \<close>
  The three functions work on Python floats (IEEE 754 binary64), Python integers
  (unbounded) and Python strings. The builtins they call are modelled first, the
  functions themselves afterwards.
\<close>

subsection \<open>Python floats\<close>

text \<open>
  A float is a finite binary64 number, an infinity or a NaN. A finite number is kept as
  an integer mantissa \<open>m\<close> and an exponent \<open>e\<close>, standing for \<open>m * 2 ^ e\<close>. The
  binary64 numbers are those with \<open>\<bar>m\<bar> < 2 ^ 53\<close> and \<open>- 1074 \<le> e \<le> 971\<close>
  (\<open>is_double\<close>). The sign of a zero is not kept: the code under study never
  observes it (\<open>round (- 0.0)\<close> is the integer \<open>0\<close>).
\<close>

datatype pyfloat = Finite int int | PInf | NInf | NaN

fun is_double :: "pyfloat \<Rightarrow> bool" where
  "is_double (Finite m e) = (\<bar>m\<bar> < 2 ^ 53 \<and> - 1074 \<le> e \<and> e \<le> 971)"
| "is_double _ = True"

fun is_finite :: "pyfloat \<Rightarrow> bool" where
  "is_finite (Finite m e) = True"
| "is_finite _ = False"

text \<open>The real number a mantissa and an exponent stand for.\<close>

definition dyadic :: "int \<Rightarrow> int \<Rightarrow> real" where
  "dyadic m e = of_int m * 2 powi e"

fun value_of :: "pyfloat \<Rightarrow> real" where
  "value_of (Finite m e) = dyadic m e"
| "value_of _ = 0"

text \<open>
  The exceptions: those the builtins raise, and those of a call whose name is unbound
  (\<open>NameError\<close>), bound to an object that cannot be called that way (\<open>TypeError\<close>) or
  bound so that the call never ends (\<open>RecursionError\<close>).
\<close>

datatype error = OverflowError | ValueError | FileNotFoundError
  | NameError | TypeError | RecursionError

text \<open>
  Rounding the quotient \<open>n / d\<close> (\<open>d > 0\<close>) to the nearest integer, a tie going to the
  even neighbour: the rounding mode of binary64 arithmetic and of Python's \<open>round\<close>.
\<close>

definition round_half_even_div :: "int \<Rightarrow> int \<Rightarrow> int" where
  "round_half_even_div n d =
     (let q = n div d; r = n mod d
      in if 2 * r < d then q
         else if d < 2 * r then q + 1
         else if even q then q else q + 1)"

text \<open>
  The binary64 number nearest to the exact value \<open>m * 2 ^ e\<close> (round to nearest, ties
  to even), with gradual underflow at exponent \<open>- 1074\<close> and overflow to the infinity of
  the value's sign.
\<close>

definition round_to_double :: "int \<Rightarrow> int \<Rightarrow> pyfloat" where
  "round_to_double m e =
     (if m = 0 then Finite 0 0
      else
        let e1 = max (- 1074) (e + bitlen \<bar>m\<bar> - 53);
            m1 = (if e1 \<le> e then m * 2 ^ nat (e - e1)
                  else round_half_even_div m (2 ^ nat (e1 - e)));
            m2 = (if \<bar>m1\<bar> = 2 ^ 53 then m1 div 2 else m1);
            e2 = (if \<bar>m1\<bar> = 2 ^ 53 then e1 + 1 else e1)
        in if 971 < e2 then (if 0 < m then PInf else NInf) else Finite m2 e2)"

text \<open>
  Converting a Python integer to a float (what \<open>float * int\<close> and \<open>int ** negative int\<close>
  do to their integer operands): correctly rounded, and \<open>OverflowError\<close> ("int too
  large to convert to float") where the rounded value is out of range.
\<close>

definition float_of_int :: "int \<Rightarrow> error + pyfloat" where
  "float_of_int n =
     (case round_to_double n 0 of
        Finite m e \<Rightarrow> Inr (Finite m e)
      | _ \<Rightarrow> Inl OverflowError)"

text \<open>The product of two floats.\<close>

fun float_mul :: "pyfloat \<Rightarrow> pyfloat \<Rightarrow> pyfloat" where
  "float_mul NaN y = NaN"
| "float_mul x NaN = NaN"
| "float_mul (Finite m e) (Finite n f) = round_to_double (m * n) (e + f)"
| "float_mul (Finite m e) PInf = (if m = 0 then NaN else if 0 < m then PInf else NInf)"
| "float_mul (Finite m e) NInf = (if m = 0 then NaN else if 0 < m then NInf else PInf)"
| "float_mul PInf (Finite n f) = (if n = 0 then NaN else if 0 < n then PInf else NInf)"
| "float_mul NInf (Finite n f) = (if n = 0 then NaN else if 0 < n then NInf else PInf)"
| "float_mul PInf PInf = PInf"
| "float_mul PInf NInf = NInf"
| "float_mul NInf PInf = NInf"
| "float_mul NInf NInf = PInf"

text \<open>
  The expression \<open>2**bits\<close>. With \<open>bits \<ge> 0\<close> it is the integer \<open>2 ^ bits\<close>. With
  \<open>bits < 0\<close> Python converts both operands to floats and returns the float
  \<open>2.0 ** bits\<close>, which is \<open>0.0\<close> below the smallest subnormal \<open>2 ^ - 1074\<close>.
  The integer \<open>2 ^ bits\<close> is taken to be built whatever its size. Where the machine
  has no memory for it, CPython raises \<open>MemoryError\<close> instead; the conversion to a float
  that follows raises \<open>OverflowError\<close> for every \<open>bits \<ge> 1024\<close> anyway, so the model
  and the code agree there on an exception leaving, not always on which.
\<close>

datatype pynum = PyInt int | PyFloat pyfloat

definition pow2 :: "int \<Rightarrow> error + pynum" where
  "pow2 bits =
     (if 0 \<le> bits then Inr (PyInt (2 ^ nat bits))
      else case float_of_int bits of
        Inl err \<Rightarrow> Inl err
      | Inr b \<Rightarrow> Inr (PyFloat (if - 1074 \<le> bits then Finite 1 bits else Finite 0 0)))"

text \<open>The expression \<open>val * p\<close> for a float \<open>val\<close>: an integer \<open>p\<close> is converted first.\<close>

fun py_mul :: "pyfloat \<Rightarrow> pynum \<Rightarrow> error + pyfloat" where
  "py_mul x (PyInt n) =
     (case float_of_int n of Inl err \<Rightarrow> Inl err | Inr y \<Rightarrow> Inr (float_mul x y))"
| "py_mul x (PyFloat y) = Inr (float_mul x y)"

text \<open>
  \<open>round(x)\<close> for a float \<open>x\<close>: the nearest integer, ties to even; \<open>ValueError\<close>
  on a NaN ("cannot convert float NaN to integer") and \<open>OverflowError\<close> on an
  infinity ("cannot convert float infinity to integer").
\<close>

fun py_round :: "pyfloat \<Rightarrow> error + int" where
  "py_round (Finite m e) =
     Inr (if 0 \<le> e then m * 2 ^ nat e else round_half_even_div m (2 ^ nat (- e)))"
| "py_round PInf = Inl OverflowError"
| "py_round NInf = Inl OverflowError"
| "py_round NaN = Inl ValueError"

subsection \<open>Python strings\<close>

text \<open>\<open>str(n)\<close> for an integer, as an f-string field \<open>{val}\<close> renders it.\<close>

definition digit_char :: "nat \<Rightarrow> char" where
  "digit_char n = ''0123456789'' ! n"

fun str_nat :: "nat \<Rightarrow> string" where
  "str_nat n = (if n < 10 then [digit_char n] else str_nat (n div 10) @ [digit_char (n mod 10)])"

declare str_nat.simps [simp del]

definition str_int :: "int \<Rightarrow> string" where
  "str_int i = (if i < 0 then CHR ''-'' # str_nat (nat (- i)) else str_nat (nat i))"

text \<open>\<open>sep.join(xs)\<close>.\<close>

fun join :: "string \<Rightarrow> string list \<Rightarrow> string" where
  "join sep [] = []"
| "join sep [x] = x"
| "join sep (x # y # ys) = x @ sep @ join sep (y # ys)"

subsection \<open>The state outside the functions\<close>

text \<open>
  What a statement of the notebook can change: the module's global variables and the
  file system (the cell writes \<open>mnist_cairo/src/input.cairo\<close>). The globals hold the
  objects the cell creates: its \<open>def\<close> statements bind the three function objects to
  their names, and the cell binds the string \<open>input_cairo\<close>. Any name may be bound to
  any of these objects or to \<open>None\<close>, or be unbound. Every function takes the state
  and returns it with its result, so that what it reads and what it changes are visible
  in its definition.
\<close>

datatype func = ToFixedPoint | MnistImageToFixedPoint | GenerateInputCairo

datatype pyval = FunV func | StrV string | NoneV

record world =
  globals :: "string \<rightharpoonup> pyval"
  dirs :: "string set"
  files :: "string \<rightharpoonup> string"

type_synonym 'a py = "world \<Rightarrow> (error + 'a) \<times> world"

subsection \<open>The three functions\<close>

text \<open>
  First the functions with the names they call (\<open>round\<close>, \<open>to_fixed_point\<close>,
  \<open>mnist_image_to_fixed_point\<close>) resolved as the cell binds them; the resolution of
  these names at call time follows below.
\<close>

definition to_fixed_point :: "pyfloat \<Rightarrow> int \<Rightarrow> int py" where
  "to_fixed_point val bits w =
     (case pow2 bits of
        Inl err \<Rightarrow> (Inl err, w)
      | Inr p \<Rightarrow>
          (case py_mul val p of
             Inl err \<Rightarrow> (Inl err, w)
           | Inr x \<Rightarrow> (py_round x, w)))"

text \<open>
  \<open>data\<close> is a one-dimensional tensor of floats, kept as the list of its elements;
  \<open>val.item()\<close> is the element as a Python float. The comprehension runs left to right
  and stops at the first exception.
\<close>

fun mnist_image_to_fixed_point :: "pyfloat list \<Rightarrow> int list py" where
  "mnist_image_to_fixed_point [] w = (Inr [], w)"
| "mnist_image_to_fixed_point (val # data) w =
     (case to_fixed_point val 16 w of
        (Inl err, w1) \<Rightarrow> (Inl err, w1)
      | (Inr v, w1) \<Rightarrow>
          (case mnist_image_to_fixed_point data w1 of
             (Inl err, w2) \<Rightarrow> (Inl err, w2)
           | (Inr vs, w2) \<Rightarrow> (Inr (v # vs), w2)))"

text \<open>The f-string of \<open>generate_input_cairo\<close>, for one value.\<close>

definition cairo_literal :: "int \<Rightarrow> string" where
  "cairo_literal val =
     ''FixedTrait::<FP16x16>::new('' @ str_int val @ '', '' @
       (if val < 0 then ''true'' else ''false'') @ '')''"

definition separator :: string where
  "separator = [CHR '','', CHR 0x0A, CHR '' '']"

definition generate_input_cairo :: "pyfloat list \<Rightarrow> string py" where
  "generate_input_cairo data w =
     (case mnist_image_to_fixed_point data w of
        (Inl err, w1) \<Rightarrow> (Inl err, w1)
      | (Inr values, w1) \<Rightarrow> (Inr (join separator (map cairo_literal values)), w1))"

subsection \<open>The calls, with their names resolved at call time\<close>

text \<open>
  Python looks a called name up when the call is executed: in the module's globals,
  then among the builtins. So \<open>to_fixed_point\<close> calls whatever \<open>round\<close> is bound to
  then (the builtin, unless a global shadows it), the comprehension calls whatever
  \<open>to_fixed_point\<close> is bound to, once per element, and \<open>generate_input_cairo\<close> calls
  whatever \<open>mnist_image_to_fixed_point\<close> is bound to. The callee is looked up before
  the arguments are evaluated and called after. Calling an unbound name raises
  \<open>NameError\<close>. Calling a string or \<open>None\<close> raises \<open>TypeError\<close>, and so does
  calling one of the cell's functions with the wrong number of arguments, or
  \<open>mnist_image_to_fixed_point\<close> on a float (which cannot be iterated).
  \<open>generate_input_cairo\<close> bound to the name \<open>mnist_image_to_fixed_point\<close> calls
  itself without end, which Python stops with \<open>RecursionError\<close>.
\<close>

definition call_round :: "pyfloat \<Rightarrow> int py" where
  "call_round x w =
     (case globals w ''round'' of
        None \<Rightarrow> (py_round x, w)
      | Some (FunV GenerateInputCairo) \<Rightarrow>
          (case globals w ''mnist_image_to_fixed_point'' of
             None \<Rightarrow> (Inl NameError, w)
           | Some (FunV GenerateInputCairo) \<Rightarrow> (Inl RecursionError, w)
           | Some _ \<Rightarrow> (Inl TypeError, w))
      | Some _ \<Rightarrow> (Inl TypeError, w))"

definition call_to_fixed_point :: "pyfloat \<Rightarrow> int \<Rightarrow> int py" where
  "call_to_fixed_point val bits w =
     (case pow2 bits of
        Inl err \<Rightarrow> (Inl err, w)
      | Inr p \<Rightarrow>
          (case py_mul val p of
             Inl err \<Rightarrow> (Inl err, w)
           | Inr x \<Rightarrow> call_round x w))"

fun call_mnist_image_to_fixed_point :: "pyfloat list \<Rightarrow> int list py" where
  "call_mnist_image_to_fixed_point [] w = (Inr [], w)"
| "call_mnist_image_to_fixed_point (val # data) w =
     (case globals w ''to_fixed_point'' of
        None \<Rightarrow> (Inl NameError, w)
      | Some (FunV ToFixedPoint) \<Rightarrow>
          (case call_to_fixed_point val 16 w of
             (Inl err, w1) \<Rightarrow> (Inl err, w1)
           | (Inr v, w1) \<Rightarrow>
               (case call_mnist_image_to_fixed_point data w1 of
                  (Inl err, w2) \<Rightarrow> (Inl err, w2)
                | (Inr vs, w2) \<Rightarrow> (Inr (v # vs), w2)))
      | Some _ \<Rightarrow> (Inl TypeError, w))"

definition call_generate_input_cairo :: "pyfloat list \<Rightarrow> string py" where
  "call_generate_input_cairo data w =
     (case globals w ''mnist_image_to_fixed_point'' of
        None \<Rightarrow> (Inl NameError, w)
      | Some (FunV MnistImageToFixedPoint) \<Rightarrow>
          (case call_mnist_image_to_fixed_point data w of
             (Inl err, w1) \<Rightarrow> (Inl err, w1)
           | (Inr values, w1) \<Rightarrow> (Inr (join separator (map cairo_literal values)), w1))
      | Some (FunV GenerateInputCairo) \<Rightarrow> (Inl RecursionError, w)
      | Some _ \<Rightarrow> (Inl TypeError, w))"

subsection \<open>The statements of the cell\<close>

text \<open>
  After the definitions the cell calls \<open>generate_input_cairo\<close> on the first example
  image, binds the result to the global \<open>input_cairo\<close> and writes it, between a fixed
  header and footer, to \<open>mnist_cairo/src/input.cairo\<close>. Opening a file for writing
  creates or truncates it and raises \<open>FileNotFoundError\<close> when its directory does not
  exist. The statements run right after the \<open>def\<close> statements, with the names bound
  as the cell has just bound them. These statements are where the state changes.
\<close>

definition newline :: char where
  "newline = CHR 0x0A"

definition input_header :: string where
  "input_header =
     [newline] @
     ''use array::{SpanTrait, ArrayTrait};'' @ [newline] @
     ''use orion::operators::tensor::{TensorTrait, FP16x16Tensor, Tensor};'' @ [newline] @
     ''use orion::numbers::{FixedTrait, FP16x16};'' @ [newline] @
     ''fn input() -> Tensor<FP16x16> {'' @ [newline] @
     ''    TensorTrait::<FP16x16>::new('' @ [newline] @
     ''        array![196].span(),'' @ [newline] @
     ''        array!['' @ [newline] @
     ''    ''"

definition input_footer :: string where
  "input_footer =
     [newline] @
     ''        ].span()'' @ [newline] @
     ''    )'' @ [newline] @
     ''}'' @ [newline] @
     ''    ''"

definition write_input_cairo :: "pyfloat list \<Rightarrow> unit py" where
  "write_input_cairo example w =
     (case generate_input_cairo example w of
        (Inl err, w1) \<Rightarrow> (Inl err, w1)
      | (Inr input_cairo, w1) \<Rightarrow>
          (let w2 = w1\<lparr>globals := (globals w1)(''input_cairo'' \<mapsto> StrV input_cairo)\<rparr>
           in if ''mnist_cairo/src'' \<notin> dirs w2 then (Inl FileNotFoundError, w2)
              else (Inr (), w2\<lparr>files := (files w2)(''mnist_cairo/src/input.cairo'' \<mapsto>
                      input_header @ input_cairo @ input_footer)\<rparr>)))"

subsection \<open>The vocabulary of the claims\<close>

text \<open>
  The integer nearest to a real number, a tie going to the even neighbour: what
  "round half to even" means, stated on the exact value.
\<close>

definition nearest_even :: "real \<Rightarrow> int" where
  "nearest_even x =
     (let f = \<lfloor>x\<rfloor>; r = x - of_int f
      in if r < 1 / 2 then f
         else if 1 / 2 < r then f + 1
         else if even f then f else f + 1)"

text \<open>
  The inputs on which \<open>round(val * (2**bits))\<close> is defined: \<open>val\<close> is finite, the
  exponent \<open>bits\<close> is one for which \<open>2**bits\<close> can be computed and converted to a
  float, and the product is within the range of the floats.
\<close>

definition in_range :: "pyfloat \<Rightarrow> int \<Rightarrow> bool" where
  "in_range val bits =
     (is_finite val \<and> - (2 ^ 1024 - 2 ^ 970) < bits \<and> bits < 1024 \<and>
      \<bar>value_of val * 2 powi bits\<bar> < 2 powi 1024)"

text \<open>A state to run the functions in: no globals bound, an empty file system.\<close>

definition initial_world :: world where
  "initial_world = \<lparr>globals = Map.empty, dirs = {}, files = Map.empty\<rparr>"

text \<open>
  The state right after the \<open>def\<close> statements of the cell, and what it means for a state
  to bind the called names as the cell does (\<open>round\<close> not shadowed by a global), or for
  two states to bind them alike.
\<close>

definition cell_world :: world where
  "cell_world =
     \<lparr>globals = [''to_fixed_point'' \<mapsto> FunV ToFixedPoint,
                 ''mnist_image_to_fixed_point'' \<mapsto> FunV MnistImageToFixedPoint,
                 ''generate_input_cairo'' \<mapsto> FunV GenerateInputCairo],
      dirs = {}, files = Map.empty\<rparr>"

definition cell_bindings :: "world \<Rightarrow> bool" where
  "cell_bindings w =
     (globals w ''round'' = None \<and>
      globals w ''to_fixed_point'' = Some (FunV ToFixedPoint) \<and>
      globals w ''mnist_image_to_fixed_point'' = Some (FunV MnistImageToFixedPoint))"

definition same_bindings :: "world \<Rightarrow> world \<Rightarrow> bool" where
  "same_bindings w w' =
     (globals w ''round'' = globals w' ''round'' \<and>
      globals w ''to_fixed_point'' = globals w' ''to_fixed_point'' \<and>
      globals w ''mnist_image_to_fixed_point'' = globals w' ''mnist_image_to_fixed_point'')"

text \<open>
  The number a string of decimal digits denotes, to say what digits a literal holds
  without reference to how they were produced.
\<close>

definition digit_value :: "char \<Rightarrow> nat" where
  "digit_value c = of_char c - 48"

definition decimal_value :: "string \<Rightarrow> nat" where
  "decimal_value ds = foldl (\<lambda>a c. 10 * a + digit_value c) 0 ds"

section \<open>Rounding\<close>

text \<open>Facts about rounding to the nearest integer and to the nearest binary64 number.\<close>

lemma nearest_even_of_int: "nearest_even (of_int k) = k"
  by (simp add: nearest_even_def)

lemma nearest_even_half: "nearest_even (of_int k + 1 / 2) = (if even k then k else k + 1)"
proof -
  have "\<lfloor>(of_int k :: real) + 1 / 2\<rfloor> = k" by linarith
  then show ?thesis by (simp add: nearest_even_def)
qed

lemma nearest_even_small:
  assumes "\<bar>x\<bar> < 1 / 2"
  shows "nearest_even x = 0"
proof -
  have "\<lfloor>x\<rfloor> = 0 \<or> \<lfloor>x\<rfloor> = -1" using assms by linarith
  then show ?thesis
  proof
    assume f: "\<lfloor>x\<rfloor> = 0"
    have "x - of_int \<lfloor>x\<rfloor> < 1 / 2" using assms f by simp
    then show ?thesis unfolding nearest_even_def Let_def using f by simp
  next
    assume f: "\<lfloor>x\<rfloor> = -1"
    have "1 / 2 < x - of_int \<lfloor>x\<rfloor>" using assms f by simp
    then show ?thesis unfolding nearest_even_def Let_def using f by simp
  qed
qed

lemma nearest_even_close: "\<bar>of_int (nearest_even x) - x\<bar> \<le> 1 / 2"
proof -
  have fl: "of_int \<lfloor>x\<rfloor> \<le> x" "x < of_int \<lfloor>x\<rfloor> + 1" by linarith+
  consider "x - of_int \<lfloor>x\<rfloor> < 1 / 2" | "1 / 2 < x - of_int \<lfloor>x\<rfloor>" | "x - of_int \<lfloor>x\<rfloor> = 1 / 2"
    by linarith
  then show ?thesis
  proof cases
    case 1
    then have "nearest_even x = \<lfloor>x\<rfloor>" by (simp add: nearest_even_def)
    then show ?thesis using 1 fl by simp
  next
    case 2
    then have "nearest_even x = \<lfloor>x\<rfloor> + 1" by (simp add: nearest_even_def Let_def)
    then show ?thesis using 2 fl by simp
  next
    case 3
    then have "nearest_even x = \<lfloor>x\<rfloor> \<or> nearest_even x = \<lfloor>x\<rfloor> + 1"
      by (simp add: nearest_even_def Let_def)
    then show ?thesis using 3 fl by auto
  qed
qed

lemma nearest_even_bound:
  assumes "\<bar>x\<bar> \<le> of_int K"
  shows "\<bar>nearest_even x\<bar> \<le> K"
proof -
  have "\<bar>(of_int (nearest_even x) :: real)\<bar> \<le> of_int K + 1 / 2"
    using nearest_even_close [of x] assms by linarith
  then have "(of_int \<bar>nearest_even x\<bar> :: real) < of_int (K + 1)"
    by simp
  then have "\<bar>nearest_even x\<bar> < K + 1"
    by (simp only: of_int_less_iff)
  then show ?thesis by simp
qed

lemma nearest_even_less:
  assumes "\<bar>x\<bar> < of_int K - 1 / 2"
  shows "\<bar>nearest_even x\<bar> < K"
proof -
  have "\<bar>(of_int (nearest_even x) :: real)\<bar> < of_int K"
    using nearest_even_close [of x] assms by linarith
  then have "(of_int \<bar>nearest_even x\<bar> :: real) < of_int K"
    by simp
  then show ?thesis
    by (simp only: of_int_less_iff)
qed

lemma nearest_even_ge:
  assumes "of_int K - 1 / 2 \<le> x" and "even K"
  shows "K \<le> nearest_even x"
proof -
  have f: "K - 1 \<le> \<lfloor>x\<rfloor>" using assms(1) by linarith
  have ge: "\<lfloor>x\<rfloor> \<le> nearest_even x"
    by (simp add: nearest_even_def Let_def)
  show ?thesis
  proof (cases "K \<le> \<lfloor>x\<rfloor>")
    case True
    then show ?thesis using ge by linarith
  next
    case False
    then have fl: "\<lfloor>x\<rfloor> = K - 1" using f by linarith
    then have r: "1 / 2 \<le> x - of_int \<lfloor>x\<rfloor>" using assms(1) by simp
    have odd: "odd \<lfloor>x\<rfloor>" using assms(2) fl by simp
    have "nearest_even x = \<lfloor>x\<rfloor> + 1"
      using r odd by (simp add: nearest_even_def Let_def)
    then show ?thesis using fl by simp
  qed
qed

lemma nearest_even_le:
  assumes "x \<le> - of_int K + 1 / 2" and "even K"
  shows "nearest_even x \<le> - K"
proof -
  have f: "\<lfloor>x\<rfloor> \<le> - K" using assms(1) by linarith
  have le: "nearest_even x \<le> \<lfloor>x\<rfloor> + 1"
    by (simp add: nearest_even_def Let_def)
  show ?thesis
  proof (cases "\<lfloor>x\<rfloor> \<le> - K - 1")
    case True
    then show ?thesis using le by linarith
  next
    case False
    then have fl: "\<lfloor>x\<rfloor> = - K" using f by linarith
    then have r: "x - of_int \<lfloor>x\<rfloor> \<le> 1 / 2" using assms(1) by simp
    have ev: "even \<lfloor>x\<rfloor>" using assms(2) fl by simp
    have "nearest_even x = \<lfloor>x\<rfloor>"
      using r ev by (simp add: nearest_even_def Let_def)
    then show ?thesis using fl by simp
  qed
qed

lemma round_half_even_div_nearest:
  assumes "0 < d"
  shows "round_half_even_div n d = nearest_even (of_int n / of_int d)"
proof -
  define x :: real where "x = of_int n / of_int d"
  have f: "\<lfloor>x\<rfloor> = n div d"
    by (simp add: x_def floor_divide_of_int_eq)
  have dpos: "(0::real) < of_int d" using assms by simp
  have "(of_int n :: real) = of_int (n div d) * of_int d + of_int (n mod d)"
    by (metis div_mult_mod_eq of_int_add of_int_mult)
  then have r: "x - of_int (n div d) = of_int (n mod d) / of_int d"
    using dpos by (simp add: x_def field_simps)
  have "(of_int (n mod d) / of_int d < (1::real) / 2) = ((of_int (2 * (n mod d)) :: real) < of_int d)"
    using dpos by (simp add: field_simps)
  then have lt: "(of_int (n mod d) / of_int d < (1::real) / 2) = (2 * (n mod d) < d)"
    by (simp only: of_int_less_iff)
  have "((1::real) / 2 < of_int (n mod d) / of_int d) = ((of_int d :: real) < of_int (2 * (n mod d)))"
    using dpos by (simp add: field_simps)
  then have gt: "((1::real) / 2 < of_int (n mod d) / of_int d) = (d < 2 * (n mod d))"
    by (simp only: of_int_less_iff)
  have "nearest_even x =
     (if 2 * (n mod d) < d then n div d
      else if d < 2 * (n mod d) then n div d + 1
      else if even (n div d) then n div d else n div d + 1)"
    unfolding nearest_even_def Let_def f r lt gt ..
  then show ?thesis
    by (simp add: round_half_even_div_def Let_def x_def)
qed

lemma round_half_even_div_exact:
  assumes "0 < d"
  shows "round_half_even_div (q * d) d = q"
  using assms by (simp add: round_half_even_div_def)

lemma py_round_nearest: "py_round (Finite m e) = Inr (nearest_even (dyadic m e))"
proof (cases "0 \<le> e")
  case True
  then have "dyadic m e = of_int (m * 2 ^ nat e)"
    by (simp add: dyadic_def power_int_def)
  then have "nearest_even (dyadic m e) = m * 2 ^ nat e"
    by (simp only: nearest_even_of_int)
  then show ?thesis using True by simp
next
  case False
  then have "dyadic m e = of_int m / of_int (2 ^ nat (- e))"
    by (simp add: dyadic_def power_int_def field_simps)
  moreover have "(0::int) < 2 ^ nat (- e)" by simp
  ultimately show ?thesis
    using False round_half_even_div_nearest [of "2 ^ nat (- e)" m] by simp
qed

lemma dyadic_shift: "dyadic (m * 2 ^ s) e = dyadic m (e + int s)"
proof -
  have "(2::real) powi (e + int s) = 2 powi e * 2 ^ s"
    by (simp add: power_int_add)
  then show ?thesis by (simp add: dyadic_def)
qed

lemma dyadic_small:
  assumes "\<bar>m\<bar> \<le> 2 ^ p" and "int p + t \<le> - 2"
  shows "\<bar>dyadic m t\<bar> < 1 / 2"
proof -
  have "(of_int \<bar>m\<bar> :: real) \<le> of_int (2 ^ p)"
    using assms(1) by (simp only: of_int_le_iff)
  then have "(of_int \<bar>m\<bar> :: real) \<le> 2 powi (int p)"
    by simp
  then have "of_int \<bar>m\<bar> * (2::real) powi t \<le> 2 powi (int p) * 2 powi t"
    by (intro mult_right_mono) simp_all
  also have "\<dots> = 2 powi (int p + t)"
    by (simp add: power_int_add)
  also have "\<dots> \<le> 2 powi (- 2)"
    by (rule power_int_increasing) (use assms(2) in simp_all)
  also have "\<dots> < 1 / 2"
    by (simp add: power_int_minus)
  finally show ?thesis
    by (simp add: dyadic_def abs_mult)
qed

lemma bitlen_le:
  assumes "0 < a" "a < 2 ^ k"
  shows "bitlen a \<le> int k"
proof -
  have "(2::int) ^ nat (bitlen a - 1) \<le> a" using bitlen_bounds [OF assms(1)] by simp
  then have "(2::int) ^ nat (bitlen a - 1) < 2 ^ k" using assms(2) by linarith
  then have "nat (bitlen a - 1) < k" by simp
  then show ?thesis by linarith
qed

lemma bitlen_abs_le:
  assumes "m \<noteq> 0" "\<bar>m\<bar> < 2 ^ k"
  shows "1 \<le> bitlen \<bar>m\<bar>" "bitlen \<bar>m\<bar> \<le> int k"
proof -
  have pos: "0 < \<bar>m\<bar>" using assms(1) by simp
  show "bitlen \<bar>m\<bar> \<le> int k" using bitlen_le [OF pos assms(2)] .
  show "1 \<le> bitlen \<bar>m\<bar>" using pos bitlen_eq_zero_iff [of "\<bar>m\<bar>"] bitlen_nonneg [of "\<bar>m\<bar>"] by linarith
qed

lemma bitlen_abs_scaled:
  assumes "m \<noteq> 0"
  shows "bitlen \<bar>m * 2 ^ j\<bar> = bitlen \<bar>m\<bar> + int j"
proof -
  have "\<bar>m * 2 ^ j\<bar> = \<bar>m\<bar> * 2 ^ j" by (simp add: abs_mult)
  moreover have "0 < \<bar>m\<bar>" using assms by simp
  ultimately show ?thesis by (simp add: bitlen_pow2)
qed

lemma abs_less_bitlen:
  assumes "m \<noteq> 0"
  shows "\<bar>m\<bar> < 2 ^ nat (bitlen \<bar>m\<bar>)"
  using bitlen_bounds [of "\<bar>m\<bar>"] assms by simp

lemma bitlen_of_bound:
  assumes m0: "m \<noteq> 0" and bound: "\<bar>dyadic m t\<bar> < 2 powi c" and c: "0 \<le> c"
  shows "t + bitlen \<bar>m\<bar> \<le> c"
proof -
  define b where "b = bitlen \<bar>m\<bar>"
  have b1: "1 \<le> b" using bitlen_eq_zero_iff [of "\<bar>m\<bar>"] bitlen_nonneg [of "\<bar>m\<bar>"] m0
    unfolding b_def by linarith
  have "(2::int) ^ nat (b - 1) \<le> \<bar>m\<bar>"
    using bitlen_bounds [of "\<bar>m\<bar>"] m0 by (simp add: b_def)
  then have "(of_int (2 ^ nat (b - 1)) :: real) \<le> of_int \<bar>m\<bar>"
    by (simp only: of_int_le_iff)
  then have "(2::real) powi (b - 1) \<le> of_int \<bar>m\<bar>"
    using b1 by (simp add: power_int_def)
  then have "(2::real) powi (b - 1) * 2 powi t \<le> of_int \<bar>m\<bar> * 2 powi t"
    by (intro mult_right_mono) simp_all
  also have "\<dots> = \<bar>dyadic m t\<bar>"
    by (simp add: dyadic_def abs_mult)
  finally have "(2::real) powi (b - 1 + t) < 2 powi c"
    using bound by (simp add: power_int_add)
  then have "b - 1 + t < c"
    using c by (intro power_int_le_imp_less_exp [of "2::real"]) simp_all
  then show ?thesis by (simp add: b_def)
qed

lemma bitlen_of_lower_bound:
  assumes m0: "m \<noteq> 0" and bound: "2 powi c \<le> \<bar>dyadic m t\<bar>"
  shows "c < t + bitlen \<bar>m\<bar>"
proof -
  define b where "b = bitlen \<bar>m\<bar>"
  have b0: "0 \<le> b" by (simp add: b_def bitlen_nonneg)
  have "\<bar>m\<bar> < 2 ^ nat b"
    using abs_less_bitlen [OF m0] by (simp add: b_def)
  then have "(of_int \<bar>m\<bar> :: real) < of_int (2 ^ nat b)"
    by (simp only: of_int_less_iff)
  then have "(of_int \<bar>m\<bar> :: real) < 2 powi b"
    using b0 by (simp add: power_int_def)
  then have "of_int \<bar>m\<bar> * (2::real) powi t < 2 powi b * 2 powi t"
    by (intro mult_strict_right_mono) simp_all
  then have "\<bar>dyadic m t\<bar> < 2 powi (b + t)"
    by (simp add: dyadic_def abs_mult power_int_add)
  then have lt: "(2::real) powi c < 2 powi (b + t)"
    using bound by linarith
  have "c < b + t"
  proof (rule ccontr)
    assume "\<not> c < b + t"
    then have "(2::real) powi (b + t) \<le> 2 powi c"
      by (intro power_int_increasing) simp_all
    then show False using lt by simp
  qed
  then show ?thesis by (simp add: b_def)
qed

text \<open>
  A mantissa of at most 53 bits at an exponent \<open>t \<ge> - 1074\<close> is not rounded: the result
  is the exact value, or an infinity when the value is out of range.
\<close>

lemma round_to_double_exact:
  assumes m0: "m \<noteq> 0" and m53: "\<bar>m\<bar> < 2 ^ 53"
    and lo: "- 1074 \<le> t"
    and e1: "e1 = max (- 1074) (t + bitlen \<bar>m\<bar> - 53)"
  shows "round_to_double (m * 2 ^ j) (t - int j) =
           (if 971 < e1 then (if 0 < m then PInf else NInf)
            else Finite (m * 2 ^ nat (t - e1)) e1)"
proof -
  define b where "b = bitlen \<bar>m\<bar>"
  have b: "1 \<le> b" "b \<le> 53"
    using bitlen_abs_le [OF m0 m53] by (simp_all add: b_def)
  have M0: "m * 2 ^ j \<noteq> 0" using m0 by simp
  have bl: "bitlen \<bar>m * 2 ^ j\<bar> = b + int j"
    using bitlen_abs_scaled [OF m0] by (simp add: b_def)
  have e1': "max (- 1074) (t - int j + bitlen \<bar>m * 2 ^ j\<bar> - 53) = e1"
    by (simp add: bl e1 b_def)
  have e1t: "e1 \<le> t" "- 1074 \<le> e1" "t + b - 53 \<le> e1"
    using b lo by (simp_all add: e1 b_def)
  define s where "s = nat (t - e1)"
  have m1: "(if e1 \<le> t - int j then m * 2 ^ j * 2 ^ nat (t - int j - e1)
             else round_half_even_div (m * 2 ^ j) (2 ^ nat (e1 - (t - int j)))) = m * 2 ^ s"
  proof (cases "e1 \<le> t - int j")
    case True
    then have "j + nat (t - int j - e1) = s" by (simp add: s_def)
    then have "(2::int) ^ j * 2 ^ nat (t - int j - e1) = 2 ^ s"
      by (metis power_add)
    then show ?thesis using True by (simp add: mult.assoc)
  next
    case False
    define k where "k = nat (e1 - (t - int j))"
    have "s + k = j" using False e1t by (simp add: s_def k_def)
    then have eq: "m * 2 ^ j = (m * 2 ^ s) * 2 ^ k"
      by (metis power_add mult.assoc)
    have "round_half_even_div ((m * 2 ^ s) * 2 ^ k) (2 ^ k) = m * 2 ^ s"
      by (rule round_half_even_div_exact) simp
    then have "round_half_even_div (m * 2 ^ j) (2 ^ k) = m * 2 ^ s"
      by (simp only: eq)
    then show ?thesis using False by (simp add: k_def)
  qed
  have "\<bar>m\<bar> < 2 ^ nat b" using abs_less_bitlen [OF m0] by (simp add: b_def)
  then have "\<bar>m\<bar> * 2 ^ s < 2 ^ nat b * 2 ^ s" by simp
  also have "\<dots> = 2 ^ (nat b + s)" by (simp add: power_add)
  also have "\<dots> \<le> 2 ^ 53"
    by (rule power_increasing) (use e1t b in \<open>simp_all add: s_def\<close>)
  finally have small: "\<bar>m * 2 ^ s\<bar> < 2 ^ 53" by (simp add: abs_mult)
  then have ne: "\<bar>m * 2 ^ s\<bar> \<noteq> 2 ^ 53" by simp
  have pos: "(0 < m * 2 ^ j) = (0 < m)"
    by (simp add: zero_less_mult_iff)
  show ?thesis
    unfolding round_to_double_def Let_def e1' m1 pos
    using M0 ne by (simp add: s_def)
qed

text \<open>Below the subnormal range the rounded product is too small to round to anything but \<open>0\<close>.\<close>

lemma round_to_double_tiny:
  assumes m0: "m \<noteq> 0" and m53: "\<bar>m\<bar> < 2 ^ 53" and lo: "t < - 1074"
  shows "\<exists>m1. round_to_double (m * 2 ^ j) (t - int j) = Finite m1 (- 1074) \<and> \<bar>m1\<bar> \<le> 2 ^ 52"
proof -
  define b where "b = bitlen \<bar>m\<bar>"
  have b: "1 \<le> b" "b \<le> 53"
    using bitlen_abs_le [OF m0 m53] by (simp_all add: b_def)
  have M0: "m * 2 ^ j \<noteq> 0" using m0 by simp
  have bl: "bitlen \<bar>m * 2 ^ j\<bar> = b + int j"
    using bitlen_abs_scaled [OF m0] by (simp add: b_def)
  have e1: "max (- 1074) (t - int j + bitlen \<bar>m * 2 ^ j\<bar> - 53) = - 1074"
    using b lo by (simp add: bl)
  define k where "k = nat (- 1074 - (t - int j))"
  have k: "j < k" using lo by (simp add: k_def)
  define m1 where "m1 = round_half_even_div (m * 2 ^ j) (2 ^ k)"
  have br: "(if - 1074 \<le> t - int j then m * 2 ^ j * 2 ^ nat (t - int j - (- 1074))
             else round_half_even_div (m * 2 ^ j) (2 ^ nat (- 1074 - (t - int j)))) = m1"
    using lo by (simp add: m1_def k_def)
  have m1n: "m1 = nearest_even (of_int (m * 2 ^ j) / of_int (2 ^ k))"
    unfolding m1_def by (rule round_half_even_div_nearest) simp
  obtain i where i: "k = j + Suc i" using k by (metis less_iff_Suc_add add_Suc_right)
  have "\<bar>(of_int (m * 2 ^ j) :: real) / of_int (2 ^ k)\<bar> = of_int \<bar>m\<bar> / 2 ^ Suc i"
    by (simp add: i power_add abs_mult)
  also have "\<dots> \<le> of_int \<bar>m\<bar> / 2"
  proof -
    have "(2::real) \<le> 2 ^ Suc i" using one_le_power [of "2::real" i] by simp
    then show ?thesis by (intro divide_left_mono) simp_all
  qed
  also have "\<dots> \<le> 2 ^ 53 / 2"
    using m53 by simp
  finally have "\<bar>(of_int (m * 2 ^ j) :: real) / of_int (2 ^ k)\<bar> \<le> of_int (2 ^ 52)"
    by simp
  then have m1b: "\<bar>m1\<bar> \<le> 2 ^ 52"
    unfolding m1n by (rule nearest_even_bound)
  then have ne: "\<bar>m1\<bar> \<noteq> 2 ^ 53" by simp
  have "round_to_double (m * 2 ^ j) (t - int j) = Finite m1 (- 1074)"
    unfolding round_to_double_def Let_def e1 br
    using M0 ne by simp
  then show ?thesis using m1b by blast
qed

lemma py_round_tiny:
  assumes "\<bar>m1\<bar> \<le> 2 ^ 52"
  shows "py_round (Finite m1 (- 1074)) = Inr 0"
proof -
  have "\<bar>dyadic m1 (- 1074)\<bar> < 1 / 2"
    by (rule dyadic_small [OF assms]) simp
  then show ?thesis
    by (simp only: py_round_nearest nearest_even_small)
qed

lemma dyadic_tiny:
  assumes "\<bar>m\<bar> < 2 ^ 53" "t < - 1074"
  shows "nearest_even (dyadic m t) = 0"
proof -
  have "\<bar>m\<bar> \<le> 2 ^ 53" using assms(1) by simp
  then have "\<bar>dyadic m t\<bar> < 1 / 2"
    by (rule dyadic_small) (use assms(2) in simp)
  then show ?thesis by (rule nearest_even_small)
qed

text \<open>
  Multiplying by a power of two and rounding to an integer: the rounded binary64 product
  rounds to the same integer as the exact product, short of overflow.
\<close>

lemma round_scaled:
  assumes m53: "\<bar>m\<bar> < 2 ^ 53" and bound: "\<bar>dyadic m t\<bar> < 2 powi 1024"
  shows "\<exists>m2 e2. round_to_double (m * 2 ^ j) (t - int j) = Finite m2 e2 \<and>
           py_round (Finite m2 e2) = Inr (nearest_even (dyadic m t))"
proof (cases "m = 0")
  case True
  have "py_round (Finite 0 0) = Inr (nearest_even (dyadic 0 t))"
    by (simp add: dyadic_def nearest_even_def)
  then show ?thesis using True by (simp add: round_to_double_def)
next
  case m0: False
  have hi: "t + bitlen \<bar>m\<bar> \<le> 1024"
    by (rule bitlen_of_bound [OF m0 bound]) simp
  show ?thesis
  proof (cases "- 1074 \<le> t")
    case True
    define e1 where "e1 = max (- 1074) (t + bitlen \<bar>m\<bar> - 53)"
    have e1t: "e1 \<le> t" "e1 \<le> 971"
      using True hi bitlen_abs_le [OF m0 m53] by (simp_all add: e1_def)
    have r: "round_to_double (m * 2 ^ j) (t - int j) = Finite (m * 2 ^ nat (t - e1)) e1"
      using round_to_double_exact [OF m0 m53 True e1_def] e1t by simp
    have "dyadic (m * 2 ^ nat (t - e1)) e1 = dyadic m t"
      using e1t by (simp add: dyadic_shift)
    then have "py_round (Finite (m * 2 ^ nat (t - e1)) e1) = Inr (nearest_even (dyadic m t))"
      by (simp only: py_round_nearest)
    then show ?thesis using r by blast
  next
    case False
    then have lo: "t < - 1074" by simp
    obtain m1 where m1: "round_to_double (m * 2 ^ j) (t - int j) = Finite m1 (- 1074)" "\<bar>m1\<bar> \<le> 2 ^ 52"
      using round_to_double_tiny [OF m0 m53 lo] by blast
    have "py_round (Finite m1 (- 1074)) = Inr (nearest_even (dyadic m t))"
      using py_round_tiny [OF m1(2)] dyadic_tiny [OF m53 lo] by simp
    then show ?thesis using m1(1) by blast
  qed
qed

text \<open>The integer \<open>2 ^ k\<close> as a float.\<close>

lemma round_to_double_pow2:
  "round_to_double (2 ^ k) 0 =
     (if 1023 < k then PInf else Finite (2 ^ 52) (int k - 52))"
proof -
  have "round_to_double (1 * 2 ^ k) (int k - int k) =
          (if 971 < max (- 1074) (int k + bitlen \<bar>1\<bar> - 53) then (if (0::int) < 1 then PInf else NInf)
           else Finite (1 * 2 ^ nat (int k - max (- 1074) (int k + bitlen \<bar>1\<bar> - 53)))
                  (max (- 1074) (int k + bitlen \<bar>1\<bar> - 53)))"
    by (rule round_to_double_exact) simp_all
  moreover have "bitlen \<bar>1\<bar> = 1" by (simp add: bitlen_alt_def)
  moreover have "max (- 1074) (int k + 1 - 53) = int k - 52" by simp
  ultimately show ?thesis by (simp del: max.absorb1 max.absorb2 max.absorb3 max.absorb4)
qed

lemma float_of_int_pow2:
  "float_of_int (2 ^ k) =
     (if 1023 < k then Inl OverflowError else Inr (Finite (2 ^ 52) (int k - 52)))"
  by (simp add: float_of_int_def round_to_double_pow2)

text \<open>
  An integer converts to a float unless it rounds to \<open>2 ^ 1024\<close> or beyond in
  magnitude, that is, unless \<open>\<bar>n\<bar> \<ge> 2 ^ 1024 - 2 ^ 970\<close>.
\<close>

lemma round_to_double_int_finite:
  assumes bound: "\<bar>n\<bar> < 2 ^ 1024 - 2 ^ 970"
  shows "\<exists>m e. round_to_double n 0 = Finite m e"
proof (cases "n = 0")
  case True
  then show ?thesis by (simp add: round_to_double_def)
next
  case n0: False
  define b where "b = bitlen \<bar>n\<bar>"
  have "\<bar>n\<bar> < 2 ^ 1024" using bound by simp
  then have b: "1 \<le> b" "b \<le> 1024"
    using bitlen_abs_le [OF n0, of 1024] by (simp_all add: b_def)
  have e1: "max (- 1074) (0 + bitlen \<bar>n\<bar> - 53) = b - 53"
    using b by (simp add: b_def)
  define m1 where "m1 = (if b - 53 \<le> 0 then n * 2 ^ nat (0 - (b - 53))
                         else round_half_even_div n (2 ^ nat (b - 53 - 0)))"
  have fin: "\<not> 971 < (if \<bar>m1\<bar> = 2 ^ 53 then b - 53 + 1 else b - 53)"
  proof (cases "b \<le> 1023")
    case True
    then show ?thesis by simp
  next
    case False
    then have b1024: "b = 1024" using b by simp
    have m1n: "m1 = nearest_even (of_int n / of_int (2 ^ 971))"
      unfolding m1_def b1024 by (simp add: round_half_even_div_nearest)
    have "(of_int \<bar>n\<bar> :: real) < of_int (2 ^ 1024 - 2 ^ 970)"
      using bound by (simp only: of_int_less_iff)
    then have "\<bar>(of_int n :: real) / of_int (2 ^ 971)\<bar> < of_int (2 ^ 53) - 1 / 2"
      by (simp add: field_simps)
    then have "\<bar>m1\<bar> < 2 ^ 53"
      unfolding m1n by (rule nearest_even_less)
    then show ?thesis by (simp add: b1024)
  qed
  show ?thesis
    unfolding round_to_double_def Let_def e1
    using n0 fin by (simp add: m1_def)
qed

lemma float_of_int_finite:
  assumes "\<bar>n\<bar> < 2 ^ 1024 - 2 ^ 970"
  shows "\<exists>y. float_of_int n = Inr y"
proof -
  obtain m e where "round_to_double n 0 = Finite m e"
    using round_to_double_int_finite [OF assms] by blast
  then show ?thesis by (simp add: float_of_int_def)
qed

lemma round_to_double_int_overflow:
  assumes bound: "2 ^ 1024 - 2 ^ 970 \<le> \<bar>n\<bar>"
  shows "round_to_double n 0 = (if 0 < n then PInf else NInf)"
proof -
  have n0: "n \<noteq> 0" using bound by auto
  define b where "b = bitlen \<bar>n\<bar>"
  have "(2::int) ^ 1023 \<le> \<bar>n\<bar>" using bound by simp
  also have "\<bar>n\<bar> < 2 ^ nat b"
    using abs_less_bitlen [OF n0] by (simp add: b_def)
  finally have lt: "(2::int) ^ 1023 < 2 ^ nat b" .
  have "1023 < nat b"
    by (rule power_less_imp_less_exp [OF _ lt]) simp
  then have b: "1024 \<le> b" by simp
  have e1: "max (- 1074) (0 + bitlen \<bar>n\<bar> - 53) = b - 53"
    using b by (simp add: b_def)
  define m1 where "m1 = (if b - 53 \<le> 0 then n * 2 ^ nat (0 - (b - 53))
                         else round_half_even_div n (2 ^ nat (b - 53 - 0)))"
  have inf: "971 < (if \<bar>m1\<bar> = 2 ^ 53 then b - 53 + 1 else b - 53)"
  proof (cases "1025 \<le> b")
    case True
    then show ?thesis by simp
  next
    case False
    then have b1024: "b = 1024" using b by simp
    have m1n: "m1 = nearest_even (of_int n / of_int (2 ^ 971))"
      unfolding m1_def b1024 by (simp add: round_half_even_div_nearest)
    have "\<bar>n\<bar> < 2 ^ 1024"
      using abs_less_bitlen [OF n0] by (simp add: b_def [symmetric] b1024)
    then have "(of_int \<bar>n\<bar> :: real) < of_int (2 ^ 1024)"
      by (simp only: of_int_less_iff)
    then have "\<bar>(of_int n :: real) / of_int (2 ^ 971)\<bar> \<le> of_int (2 ^ 53)"
      by (simp add: field_simps)
    then have up: "\<bar>m1\<bar> \<le> 2 ^ 53"
      unfolding m1n by (rule nearest_even_bound)
    have "(of_int (2 ^ 1024 - 2 ^ 970) :: real) \<le> of_int \<bar>n\<bar>"
      using bound by (simp only: of_int_le_iff)
    then have lo: "of_int (2 ^ 53) - 1 / 2 \<le> \<bar>(of_int n :: real) / of_int (2 ^ 971)\<bar>"
      by (simp add: field_simps)
    have "2 ^ 53 \<le> \<bar>m1\<bar>"
    proof (cases "0 \<le> n")
      case True
      then have "of_int (2 ^ 53) - 1 / 2 \<le> (of_int n :: real) / of_int (2 ^ 971)"
        using lo by (simp add: abs_if split: if_splits)
      then have "2 ^ 53 \<le> m1"
        unfolding m1n by (rule nearest_even_ge) simp
      then show ?thesis by simp
    next
      case False
      then have "(of_int n :: real) / of_int (2 ^ 971) \<le> - of_int (2 ^ 53) + 1 / 2"
        using lo by (simp add: abs_if field_simps split: if_splits)
      then have "m1 \<le> - (2 ^ 53)"
        unfolding m1n by (rule nearest_even_le) simp
      then show ?thesis by simp
    qed
    then have "\<bar>m1\<bar> = 2 ^ 53" using up by simp
    then show ?thesis by (simp add: b1024)
  qed
  show ?thesis
    unfolding round_to_double_def Let_def e1
    using n0 inf by (simp add: m1_def)
qed

lemma float_of_int_overflow:
  assumes "2 ^ 1024 - 2 ^ 970 \<le> \<bar>n\<bar>"
  shows "float_of_int n = Inl OverflowError"
  by (simp add: float_of_int_def round_to_double_int_overflow [OF assms])

section \<open>The expression \<open>round(val * (2**bits))\<close>\<close>

text \<open>
  What the body of \<open>to_fixed_point\<close> computes: on the inputs in range the integer
  nearest to the exact product, and an exception on all others.
\<close>

lemma scaled_value: "dyadic m e * 2 powi bits = dyadic m (e + bits)"
  by (simp add: dyadic_def power_int_add)

lemma pow2_nonneg:
  assumes "0 \<le> bits"
  shows "pow2 bits = Inr (PyInt (2 ^ nat bits))"
  using assms by (simp add: pow2_def)

lemma pow2_neg:
  assumes "bits < 0" and "- (2 ^ 1024 - 2 ^ 970) < bits"
  shows "pow2 bits = Inr (PyFloat (if - 1074 \<le> bits then Finite 1 bits else Finite 0 0))"
proof -
  have "\<bar>bits\<bar> < 2 ^ 1024 - 2 ^ 970" using assms by linarith
  then obtain y where "float_of_int bits = Inr y"
    using float_of_int_finite by blast
  then show ?thesis using assms(1) by (simp add: pow2_def)
qed

lemma pow2_overflow:
  assumes "bits \<le> - (2 ^ 1024 - 2 ^ 970)"
  shows "pow2 bits = Inl OverflowError"
proof -
  have "2 ^ 1024 - 2 ^ 970 \<le> \<bar>bits\<bar>" using assms by linarith
  then have "float_of_int bits = Inl OverflowError"
    by (rule float_of_int_overflow)
  moreover have "\<not> 0 \<le> bits" using assms by simp
  ultimately show ?thesis by (simp add: pow2_def)
qed

lemma pow2_product:
  assumes "- (2 ^ 1024 - 2 ^ 970) < bits" and "bits < 1024"
  shows "\<exists>p n f. pow2 bits = Inr p \<and> py_mul val p = Inr (float_mul val (Finite n f))"
proof (cases "0 \<le> bits")
  case True
  have "float_of_int (2 ^ nat bits) = Inr (Finite (2 ^ 52) (bits - 52))"
    using True assms(2) by (simp add: float_of_int_pow2)
  then have "py_mul val (PyInt (2 ^ nat bits)) = Inr (float_mul val (Finite (2 ^ 52) (bits - 52)))"
    by simp
  then show ?thesis using pow2_nonneg [OF True] by blast
next
  case False
  then have "bits < 0" by simp
  then have "pow2 bits = Inr (PyFloat (if - 1074 \<le> bits then Finite 1 bits else Finite 0 0))"
    using assms(1) by (rule pow2_neg)
  moreover have "py_mul val (PyFloat (if - 1074 \<le> bits then Finite 1 bits else Finite 0 0)) =
      Inr (float_mul val (if - 1074 \<le> bits then Finite 1 bits else Finite 0 0))"
    by simp
  ultimately show ?thesis by (metis (full_types))
qed

text \<open>
  The quantisation of a finite float: the nearest integer to the exact product, as long
  as \<open>2**bits\<close> can be computed and the product is in the range of the floats.
\<close>

lemma product_rounds:
  assumes m53: "\<bar>m\<bar> < 2 ^ 53" and e: "e \<le> 971"
    and lo: "- (2 ^ 1024 - 2 ^ 970) < bits" and hi: "bits < 1024"
    and bound: "\<bar>dyadic m e * 2 powi bits\<bar> < 2 powi 1024"
  shows "\<exists>x. (\<exists>p. pow2 bits = Inr p \<and> py_mul (Finite m e) p = Inr x) \<and>
           py_round x = Inr (nearest_even (dyadic m e * 2 powi bits))"
proof -
  have bound': "\<bar>dyadic m (e + bits)\<bar> < 2 powi 1024"
    using bound by (simp only: scaled_value)
  show ?thesis
  proof (cases "0 \<le> bits")
    case True
    have k: "\<not> 1023 < nat bits" using hi by simp
    have f: "float_of_int (2 ^ nat bits) = Inr (Finite (2 ^ 52) (bits - 52))"
      using True k by (simp add: float_of_int_pow2)
    obtain m2 e2 where r: "round_to_double (m * 2 ^ 52) (e + bits - int 52) = Finite m2 e2"
        "py_round (Finite m2 e2) = Inr (nearest_even (dyadic m (e + bits)))"
      using round_scaled [OF m53 bound', of 52] by blast
    have "py_mul (Finite m e) (PyInt (2 ^ nat bits)) = Inr (Finite m2 e2)"
      using r(1) by (simp add: f add_diff_eq)
    then show ?thesis
      using r(2) pow2_nonneg [OF True] by (simp add: scaled_value)
  next
    case False
    then have neg: "bits < 0" by simp
    note p = pow2_neg [OF neg lo]
    show ?thesis
    proof (cases "- 1074 \<le> bits")
      case True
      obtain m2 e2 where r: "round_to_double (m * 2 ^ 0) (e + bits - int 0) = Finite m2 e2"
          "py_round (Finite m2 e2) = Inr (nearest_even (dyadic m (e + bits)))"
        using round_scaled [OF m53 bound', of 0] by blast
      have "py_mul (Finite m e) (PyFloat (Finite 1 bits)) = Inr (Finite m2 e2)"
        using r(1) by simp
      then show ?thesis
        using r(2) p True by (simp add: scaled_value)
    next
      case False
      have "\<bar>m\<bar> \<le> 2 ^ 53" using m53 by simp
      then have "\<bar>dyadic m (e + bits)\<bar> < 1 / 2"
        by (rule dyadic_small) (use False e in simp)
      then have z: "nearest_even (dyadic m (e + bits)) = 0"
        by (rule nearest_even_small)
      have "py_mul (Finite m e) (PyFloat (Finite 0 0)) = Inr (Finite 0 0)"
        by (simp add: round_to_double_def)
      moreover have "py_round (Finite 0 0) = Inr 0" by simp
      ultimately show ?thesis
        using p False z by (simp add: scaled_value)
    qed
  qed
qed

lemma to_fixed_point_product:
  assumes "pow2 bits = Inr p" and "py_mul val p = Inr x"
  shows "to_fixed_point val bits w = (py_round x, w)"
  using assms by (simp add: to_fixed_point_def)

lemma to_fixed_point_exact:
  assumes "\<bar>m\<bar> < 2 ^ 53" and "e \<le> 971"
    and "- (2 ^ 1024 - 2 ^ 970) < bits" and "bits < 1024"
    and "\<bar>dyadic m e * 2 powi bits\<bar> < 2 powi 1024"
  shows "to_fixed_point (Finite m e) bits w = (Inr (nearest_even (dyadic m e * 2 powi bits)), w)"
proof -
  obtain x p where "pow2 bits = Inr p" "py_mul (Finite m e) p = Inr x"
      "py_round x = Inr (nearest_even (dyadic m e * 2 powi bits))"
    using product_rounds [OF assms] by blast
  then show ?thesis by (simp add: to_fixed_point_def)
qed

text \<open>A product of magnitude \<open>2 ^ 1024\<close> or more overflows, and rounding it raises.\<close>

lemma product_overflows:
  assumes m53: "\<bar>m\<bar> < 2 ^ 53" and bits: "0 \<le> bits" "bits < 1024"
    and bound: "2 powi 1024 \<le> \<bar>dyadic m e * 2 powi bits\<bar>"
  shows "to_fixed_point (Finite m e) bits w = (Inl OverflowError, w)"
proof -
  have bound': "2 powi 1024 \<le> \<bar>dyadic m (e + bits)\<bar>"
    using bound by (simp only: scaled_value)
  have m0: "m \<noteq> 0"
    using bound' by (auto simp: dyadic_def)
  have big: "1024 < e + bits + bitlen \<bar>m\<bar>"
    by (rule bitlen_of_lower_bound [OF m0 bound'])
  have b53: "bitlen \<bar>m\<bar> \<le> 53"
    using bitlen_abs_le [OF m0 m53] by simp
  have lo: "- 1074 \<le> e + bits" using big b53 by simp
  define e1 where "e1 = max (- 1074) (e + bits + bitlen \<bar>m\<bar> - 53)"
  have e1: "971 < e1"
    using big by (simp add: e1_def)
  have r: "round_to_double (m * 2 ^ 52) (e + bits - int 52) = (if 0 < m then PInf else NInf)"
    using round_to_double_exact [OF m0 m53 lo e1_def, of 52] e1 by simp
  have f: "float_of_int (2 ^ nat bits) = Inr (Finite (2 ^ 52) (bits - 52))"
    using bits by (simp add: float_of_int_pow2)
  have "py_mul (Finite m e) (PyInt (2 ^ nat bits)) = Inr (if 0 < m then PInf else NInf)"
    using r by (simp add: f add_diff_eq)
  then show ?thesis
    using pow2_nonneg [OF bits(1)] by (simp add: to_fixed_point_def)
qed

lemma float_mul_not_finite:
  assumes "\<not> is_finite val"
  shows "\<not> is_finite (float_mul val (Finite n f))"
  using assms by (cases val) simp_all

lemma py_round_not_finite:
  assumes "\<not> is_finite x"
  shows "\<exists>err. py_round x = Inl err"
  using assms by (cases x) simp_all

lemma double_below_top:
  assumes "\<bar>m\<bar> < 2 ^ 53" and "e \<le> 971" and "bits < 0"
  shows "\<bar>dyadic m e * 2 powi bits\<bar> < 2 powi 1024"
proof -
  have "(of_int \<bar>m\<bar> :: real) < of_int (2 ^ 53)"
    using assms(1) by (simp only: of_int_less_iff)
  then have "(of_int \<bar>m\<bar> :: real) < 2 powi 53" by simp
  then have "of_int \<bar>m\<bar> * (2::real) powi (e + bits) < 2 powi 53 * 2 powi (e + bits)"
    by (intro mult_strict_right_mono) simp_all
  also have "\<dots> = 2 powi (53 + (e + bits))"
    by (simp add: power_int_add)
  also have "\<dots> \<le> 2 powi 1024"
    by (rule power_int_increasing) (use assms in simp_all)
  finally have "\<bar>dyadic m (e + bits)\<bar> < 2 powi 1024"
    by (simp add: dyadic_def abs_mult)
  then show ?thesis
    by (simp only: scaled_value)
qed

lemma to_fixed_point_in_range:
  assumes "is_double val" and "in_range val bits"
  shows "to_fixed_point val bits w = (Inr (nearest_even (value_of val * 2 powi bits)), w)"
proof -
  obtain m e where val: "val = Finite m e"
    using assms(2) by (cases val) (simp_all add: in_range_def)
  show ?thesis
    unfolding val value_of.simps
    by (rule to_fixed_point_exact) (use assms in \<open>simp_all add: val in_range_def\<close>)
qed

lemma to_fixed_point_big_bits:
  assumes "1024 \<le> bits"
  shows "to_fixed_point val bits w = (Inl OverflowError, w)"
proof -
  have "1023 < nat bits" using assms by simp
  then show ?thesis
    using assms by (simp add: to_fixed_point_def pow2_def float_of_int_pow2)
qed

lemma py_mul_16: "py_mul x (PyInt (2 ^ nat 16)) = Inr (float_mul x (Finite (2 ^ 52) (- 36)))"
  by (simp only: py_mul.simps float_of_int_pow2) simp

lemma to_fixed_point_16:
  "to_fixed_point val 16 w = (py_round (float_mul val (Finite (2 ^ 52) (- 36))), w)"
proof -
  have "pow2 16 = Inr (PyInt (2 ^ nat 16))" by (rule pow2_nonneg) simp
  then show ?thesis by (simp only: to_fixed_point_def py_mul_16 sum.case)
qed

lemma to_fixed_point_NaN: "to_fixed_point NaN 16 w = (Inl ValueError, w)"
  by (simp add: to_fixed_point_16)

lemma to_fixed_point_PInf: "to_fixed_point PInf 16 w = (Inl OverflowError, w)"
  by (simp add: to_fixed_point_16)

lemma to_fixed_point_NInf: "to_fixed_point NInf 16 w = (Inl OverflowError, w)"
  by (simp add: to_fixed_point_16)

lemma to_fixed_point_out_of_range:
  assumes dbl: "is_double val" and out: "\<not> in_range val bits"
  shows "\<exists>err. to_fixed_point val bits w = (Inl err, w)"
proof -
  consider "1024 \<le> bits" | "bits \<le> - (2 ^ 1024 - 2 ^ 970)"
    | "- (2 ^ 1024 - 2 ^ 970) < bits" "bits < 1024" "\<not> is_finite val"
    | "- (2 ^ 1024 - 2 ^ 970) < bits" "bits < 1024" "is_finite val"
    by linarith
  then show ?thesis
  proof cases
    case 1
    then show ?thesis by (simp add: to_fixed_point_big_bits)
  next
    case 2
    then show ?thesis by (simp add: to_fixed_point_def pow2_overflow)
  next
    case 3
    obtain p n f where p: "pow2 bits = Inr p" "py_mul val p = Inr (float_mul val (Finite n f))"
      using pow2_product [OF 3(1,2)] by blast
    obtain err where "py_round (float_mul val (Finite n f)) = Inl err"
      using py_round_not_finite [OF float_mul_not_finite [OF 3(3)]] by blast
    then show ?thesis by (simp add: to_fixed_point_product [OF p])
  next
    case 4
    then obtain m e where val: "val = Finite m e" by (cases val) simp_all
    have me: "\<bar>m\<bar> < 2 ^ 53" "e \<le> 971" using dbl by (simp_all add: val)
    have big: "2 powi 1024 \<le> \<bar>dyadic m e * 2 powi bits\<bar>"
      using out 4 by (simp add: in_range_def val)
    have "0 \<le> bits"
    proof (rule ccontr)
      assume "\<not> 0 \<le> bits"
      then have "\<bar>dyadic m e * 2 powi bits\<bar> < 2 powi 1024"
        using double_below_top [OF me] by simp
      then show False using big by simp
    qed
    then have "to_fixed_point (Finite m e) bits w = (Inl OverflowError, w)"
      using me(1) 4(2) big by (intro product_overflows)
    then show ?thesis by (simp add: val)
  qed
qed

lemma to_fixed_point_returns_iff:
  assumes "is_double val"
  shows "(\<exists>v. fst (to_fixed_point val bits w) = Inr v) = in_range val bits"
proof
  assume "\<exists>v. fst (to_fixed_point val bits w) = Inr v"
  then show "in_range val bits"
    using to_fixed_point_out_of_range [OF assms, of bits w] by fastforce
next
  assume "in_range val bits"
  then show "\<exists>v. fst (to_fixed_point val bits w) = Inr v"
    using to_fixed_point_in_range [OF assms, of bits w] by simp
qed

text \<open>
  Every finite binary32 number, read as a float, is in range for \<open>bits = 16\<close>: its
  mantissa has at most 24 bits and its exponent is at most \<open>104\<close>. The elements of a
  float32 tensor, which \<open>val.item()\<close> turns into floats, are such numbers.
\<close>

lemma float32_in_range:
  assumes "\<bar>m\<bar> < 2 ^ 24" and "e \<le> 104"
  shows "in_range (Finite m e) 16"
proof -
  have "(of_int \<bar>m\<bar> :: real) < of_int (2 ^ 24)"
    using assms(1) by (simp only: of_int_less_iff)
  then have "(of_int \<bar>m\<bar> :: real) < 2 powi 24" by simp
  then have "of_int \<bar>m\<bar> * (2::real) powi (e + 16) < 2 powi 24 * 2 powi (e + 16)"
    by (intro mult_strict_right_mono) simp_all
  also have "\<dots> = 2 powi (24 + (e + 16))"
    by (simp add: power_int_add)
  also have "\<dots> \<le> 2 powi 1024"
    by (rule power_int_increasing) (use assms(2) in simp_all)
  finally have "\<bar>dyadic m (e + 16)\<bar> < 2 powi 1024"
    by (simp add: dyadic_def abs_mult)
  then have "\<bar>dyadic m e * 2 powi 16\<bar> < 2 powi 1024"
    by (simp only: scaled_value)
  then show ?thesis
    by (simp add: in_range_def)
qed

section \<open>The functions and the state\<close>

lemma to_fixed_point_world: "snd (to_fixed_point val bits w) = w"
  by (simp add: to_fixed_point_def split: sum.splits)

lemma to_fixed_point_result: "fst (to_fixed_point val bits w) = fst (to_fixed_point val bits w')"
  by (simp add: to_fixed_point_def split: sum.splits)

lemma to_fixed_point_pair: "to_fixed_point val bits w = (fst (to_fixed_point val bits w), w)"
  by (simp add: to_fixed_point_def split: sum.splits)

lemma mnist_image_world: "snd (mnist_image_to_fixed_point data w) = w"
proof (induction data)
  case Nil
  show ?case by simp
next
  case (Cons val data)
  obtain r where r: "to_fixed_point val 16 w = (r, w)"
    using to_fixed_point_pair by blast
  obtain rs where rs: "mnist_image_to_fixed_point data w = (rs, w)"
    using Cons.IH by (metis prod.collapse)
  show ?case
    by (simp add: r rs split: sum.splits)
qed

lemma mnist_image_result:
  "fst (mnist_image_to_fixed_point data w) = fst (mnist_image_to_fixed_point data w')"
proof (induction data)
  case Nil
  show ?case by simp
next
  case (Cons val data)
  obtain r where r: "to_fixed_point val 16 w = (r, w)" "to_fixed_point val 16 w' = (r, w')"
    using to_fixed_point_pair to_fixed_point_result by metis
  obtain rs where rs: "mnist_image_to_fixed_point data w = (rs, w)"
      "mnist_image_to_fixed_point data w' = (rs, w')"
    using Cons.IH mnist_image_world by (metis prod.collapse)
  show ?case
    by (simp add: r rs split: sum.splits)
qed

lemma mnist_image_pair:
  "mnist_image_to_fixed_point data w = (fst (mnist_image_to_fixed_point data w), w)"
  using mnist_image_world [of data w] by (metis prod.collapse)

lemma generate_input_cairo_world: "snd (generate_input_cairo data w) = w"
proof -
  obtain rs where "mnist_image_to_fixed_point data w = (rs, w)"
    using mnist_image_pair by blast
  then show ?thesis
    by (simp add: generate_input_cairo_def split: sum.splits)
qed

lemma generate_input_cairo_result:
  "fst (generate_input_cairo data w) = fst (generate_input_cairo data w')"
proof -
  obtain rs where "mnist_image_to_fixed_point data w = (rs, w)"
      "mnist_image_to_fixed_point data w' = (rs, w')"
    using mnist_image_pair mnist_image_result by metis
  then show ?thesis
    by (simp add: generate_input_cairo_def split: sum.splits)
qed

text \<open>
  C5. The three functions store nothing: a call, whether it returns or raises, leaves
  the global variables and the file system as they were. All it produces is its result.
\<close>

theorem functions_leave_state:
  "snd (to_fixed_point val bits w) = w \<and>
   snd (mnist_image_to_fixed_point data w) = w \<and>
   snd (generate_input_cairo data w) = w"
  by (simp add: to_fixed_point_world mnist_image_world generate_input_cairo_world)

subsection \<open>The statements of the cell change the state\<close>

text \<open>
  In contrast with the three functions, the statements after them bind a global and
  write a file: the state that the functions leave alone is one that the cell does change.
\<close>

lemma write_input_cairo_effect:
  assumes "fst (generate_input_cairo example w) = Inr s" and "''mnist_cairo/src'' \<in> dirs w"
  shows "write_input_cairo example w =
           (Inr (), w\<lparr>globals := (globals w)(''input_cairo'' \<mapsto> StrV s),
                      files := (files w)(''mnist_cairo/src/input.cairo'' \<mapsto>
                                  input_header @ s @ input_footer)\<rparr>)"
proof -
  have "generate_input_cairo example w = (Inr s, w)"
    using assms(1) generate_input_cairo_world [of example w] by (metis prod.collapse)
  then show ?thesis
    using assms(2) by (simp add: write_input_cairo_def)
qed

lemma write_input_cairo_no_directory:
  assumes "fst (generate_input_cairo example w) = Inr s" and "''mnist_cairo/src'' \<notin> dirs w"
  shows "write_input_cairo example w =
           (Inl FileNotFoundError, w\<lparr>globals := (globals w)(''input_cairo'' \<mapsto> StrV s)\<rparr>)"
proof -
  have "generate_input_cairo example w = (Inr s, w)"
    using assms(1) generate_input_cairo_world [of example w] by (metis prod.collapse)
  then show ?thesis
    using assms(2) by (simp add: write_input_cairo_def)
qed

section \<open>The comprehension and the join\<close>

text \<open>
  The list comprehension of \<open>mnist_image_to_fixed_point\<close> returns the quantised values
  of all elements, in order, or the exception of the first element that raises.
\<close>

lemma mnist_image_map:
  assumes "\<forall>x\<in>set data. fst (to_fixed_point x 16 w) = Inr (f x)"
  shows "mnist_image_to_fixed_point data w = (Inr (map f data), w)"
  using assms
proof (induction data)
  case Nil
  show ?case by simp
next
  case (Cons val data)
  have "to_fixed_point val 16 w = (Inr (f val), w)"
    using Cons.prems to_fixed_point_pair [of val 16 w] by simp
  moreover have "mnist_image_to_fixed_point data w = (Inr (map f data), w)"
    using Cons by simp
  ultimately show ?case by simp
qed

lemma mnist_image_in_range:
  assumes "\<forall>x\<in>set data. is_double x \<and> in_range x 16"
  shows "mnist_image_to_fixed_point data w =
           (Inr (map (\<lambda>x. nearest_even (value_of x * 2 ^ 16)) data), w)"
proof (rule mnist_image_map)
  show "\<forall>x\<in>set data. fst (to_fixed_point x 16 w) = Inr (nearest_even (value_of x * 2 ^ 16))"
    using assms by (simp add: to_fixed_point_in_range)
qed

lemma mnist_image_all2:
  "(fst (mnist_image_to_fixed_point data w) = Inr vs) =
     list_all2 (\<lambda>x v. fst (to_fixed_point x 16 w) = Inr v) data vs"
proof (induction data arbitrary: vs)
  case Nil
  show ?case by auto
next
  case (Cons val data)
  obtain r where r: "to_fixed_point val 16 w = (r, w)"
    using to_fixed_point_pair by blast
  obtain rs where rs: "mnist_image_to_fixed_point data w = (rs, w)"
    using mnist_image_pair by blast
  have IH: "\<And>us. (rs = Inr us) = list_all2 (\<lambda>x v. fst (to_fixed_point x 16 w) = Inr v) data us"
    using Cons.IH rs by simp
  show ?case
    by (cases r; cases rs) (auto simp: r rs list_all2_Cons1 IH [symmetric])
qed

lemma mnist_image_first_error:
  assumes "fst (to_fixed_point val 16 w) = Inl err"
    and "fst (mnist_image_to_fixed_point pre w) = Inr vs"
  shows "mnist_image_to_fixed_point (pre @ val # data) w = (Inl err, w)"
  using assms(2)
proof (induction pre arbitrary: vs)
  case Nil
  have "to_fixed_point val 16 w = (Inl err, w)"
    using assms(1) to_fixed_point_pair [of val 16 w] by simp
  then show ?case by simp
next
  case (Cons x pre)
  obtain r where r: "to_fixed_point x 16 w = (r, w)"
    using to_fixed_point_pair by blast
  obtain rs where rs: "mnist_image_to_fixed_point pre w = (rs, w)"
    using mnist_image_pair by blast
  obtain v us where "r = Inr v" "rs = Inr us"
    using Cons.prems by (cases r; cases rs) (simp_all add: r rs)
  then show ?case
    using Cons.IH [of us] r rs by simp
qed

lemma ex_list_all2: "(\<exists>ys. list_all2 P xs ys) = (\<forall>x\<in>set xs. \<exists>y. P x y)"
proof (induction xs)
  case Nil
  show ?case by simp
next
  case (Cons x xs)
  show ?case
    using Cons.IH by (auto simp: list_all2_Cons1)
qed

lemma mnist_image_returns_iff:
  assumes "\<forall>x\<in>set data. is_double x"
  shows "(\<exists>vs. fst (mnist_image_to_fixed_point data w) = Inr vs) = (\<forall>x\<in>set data. in_range x 16)"
proof -
  have "(\<exists>vs. fst (mnist_image_to_fixed_point data w) = Inr vs) =
          (\<forall>x\<in>set data. \<exists>v. fst (to_fixed_point x 16 w) = Inr v)"
    by (simp only: mnist_image_all2 ex_list_all2)
  then show ?thesis
    using assms by (simp add: to_fixed_point_returns_iff)
qed

lemma generate_from_values:
  assumes "fst (mnist_image_to_fixed_point data w) = Inr vs"
  shows "generate_input_cairo data w = (Inr (join separator (map cairo_literal vs)), w)"
  using assms mnist_image_pair [of data w]
  by (simp add: generate_input_cairo_def)

lemma generate_from_error:
  assumes "fst (mnist_image_to_fixed_point data w) = Inl err"
  shows "generate_input_cairo data w = (Inl err, w)"
  using assms mnist_image_pair [of data w]
  by (simp add: generate_input_cairo_def)

lemma generate_returns:
  assumes "fst (generate_input_cairo data w) = Inr out"
  shows "\<exists>vs. fst (mnist_image_to_fixed_point data w) = Inr vs \<and>
           out = join separator (map cairo_literal vs)"
proof (cases "fst (mnist_image_to_fixed_point data w)")
  case (Inl err)
  then show ?thesis
    using assms generate_from_error [of data w err] by simp
next
  case (Inr vs)
  then show ?thesis
    using assms generate_from_values [of data w vs] by simp
qed

lemma generate_returns_iff:
  "(\<exists>out. fst (generate_input_cairo data w) = Inr out) =
     (\<exists>vs. fst (mnist_image_to_fixed_point data w) = Inr vs)"
proof
  assume "\<exists>out. fst (generate_input_cairo data w) = Inr out"
  then show "\<exists>vs. fst (mnist_image_to_fixed_point data w) = Inr vs"
    using generate_returns by blast
next
  assume "\<exists>vs. fst (mnist_image_to_fixed_point data w) = Inr vs"
  then show "\<exists>out. fst (generate_input_cairo data w) = Inr out"
    using generate_from_values by fastforce
qed

section \<open>The literals\<close>

text \<open>
  The decimal rendering of an integer holds digits only (after the sign), so each literal
  has exactly one opening parenthesis, and the joined output has one per value.
\<close>

lemma digit_char_digit:
  assumes "n < 10"
  shows "digit_char n \<in> set ''0123456789''"
proof -
  have "n < length ''0123456789''" using assms by simp
  then show ?thesis unfolding digit_char_def by (rule nth_mem)
qed

lemma str_nat_digits: "set (str_nat n) \<subseteq> set ''0123456789''"
proof (induction n rule: str_nat.induct)
  case (1 n)
  show ?case
  proof (cases "n < 10")
    case True
    then show ?thesis
      using digit_char_digit [of n] by (subst str_nat.simps) simp
  next
    case False
    have "n mod 10 < 10" by simp
    then have "digit_char (n mod 10) \<in> set ''0123456789''"
      by (rule digit_char_digit)
    then show ?thesis
      using False 1 by (subst str_nat.simps) simp
  qed
qed

lemma str_nat_small:
  assumes "n < 10"
  shows "str_nat n = [digit_char n]"
  using assms by (subst str_nat.simps) simp

lemma str_nat_large:
  assumes "10 \<le> n"
  shows "str_nat n = str_nat (n div 10) @ [digit_char (n mod 10)]"
  using assms by (subst str_nat.simps) simp

lemma count_paren_str_int: "count_list (str_int v) (CHR ''('') = 0"
proof -
  have "CHR ''('' \<notin> set ''0123456789''" by simp
  then have "CHR ''('' \<notin> set (str_nat n)" for n
    using str_nat_digits by blast
  then show ?thesis
    by (simp add: str_int_def count_list_0_iff)
qed

lemma count_paren_literal: "count_list (cairo_literal v) (CHR ''('') = 1"
  by (simp add: cairo_literal_def count_paren_str_int)

lemma count_paren_join:
  "count_list (join separator (map cairo_literal vs)) (CHR ''('') = length vs"
proof (induction vs rule: induct_list012)
  case 1
  show ?case by simp
next
  case (2 v)
  show ?case by (simp add: count_paren_literal)
next
  case (3 v u us)
  have "count_list separator (CHR ''('') = 0" by (simp add: separator_def)
  then show ?case using 3 by (simp add: count_paren_literal)
qed

lemma cairo_literal_negative:
  assumes "v < 0"
  shows "cairo_literal v = ''FixedTrait::<FP16x16>::new(-'' @ str_nat (nat (- v)) @ '', true)''"
  using assms by (simp add: cairo_literal_def str_int_def)

lemma cairo_literal_nonnegative:
  assumes "\<not> v < 0"
  shows "cairo_literal v = ''FixedTrait::<FP16x16>::new('' @ str_nat (nat v) @ '', false)''"
  using assms by (simp add: cairo_literal_def str_int_def)

text \<open>
  The digits of \<open>str(n)\<close> denote \<open>n\<close>, and there is no leading zero; the join is the
  concatenation of the pieces, each but the last followed by the separator.
\<close>

lemma digit_value_digit_char:
  assumes "n < 10"
  shows "digit_value (digit_char n) = n"
proof -
  have "n \<in> {0, 1, 2, 3, 4, 5, 6, 7, 8, 9}" using assms by auto
  then show ?thesis
    by (auto simp: digit_value_def digit_char_def)
qed

lemma decimal_value_snoc: "decimal_value (ds @ [c]) = 10 * decimal_value ds + digit_value c"
  by (simp add: decimal_value_def)

lemma decimal_value_str_nat: "decimal_value (str_nat n) = n"
proof (induction n rule: str_nat.induct)
  case (1 n)
  show ?case
  proof (cases "n < 10")
    case True
    then show ?thesis
      by (simp add: str_nat_small decimal_value_def digit_value_digit_char)
  next
    case False
    then have "decimal_value (str_nat (n div 10)) = n div 10"
      using 1 by simp
    then show ?thesis
      using False by (simp add: str_nat_large decimal_value_snoc digit_value_digit_char)
  qed
qed

lemma str_nat_not_empty: "str_nat n \<noteq> []"
  by (subst str_nat.simps) simp

lemma digit_char_zero:
  assumes "n < 10" and "digit_char n = CHR ''0''"
  shows "n = 0"
proof -
  have "digit_value (digit_char n) = 0"
    by (simp add: assms(2) digit_value_def)
  then show ?thesis
    using digit_value_digit_char [OF assms(1)] by simp
qed

lemma str_nat_no_leading_zero:
  assumes "hd (str_nat n) = CHR ''0''"
  shows "n = 0"
  using assms
proof (induction n rule: str_nat.induct)
  case (1 n)
  show ?case
  proof (cases "n < 10")
    case True
    then show ?thesis
      using "1.prems" digit_char_zero [of n] by (simp add: str_nat_small)
  next
    case False
    then have "hd (str_nat (n div 10)) = CHR ''0''"
      using "1.prems" str_nat_not_empty [of "n div 10"] by (simp add: str_nat_large)
    then have "n div 10 = 0"
      using False 1 by simp
    then show ?thesis using False by simp
  qed
qed

lemma str_nat_zero: "str_nat 0 = ''0''"
  by (simp add: str_nat_small digit_char_def)

lemma join_concat:
  "join sep xs =
     (if xs = [] then [] else concat (map (\<lambda>x. x @ sep) (butlast xs)) @ last xs)"
  by (induction xs rule: induct_list012) simp_all

lemma cairo_literal_text:
  "\<exists>ds. cairo_literal v =
          ''FixedTrait::<FP16x16>::new('' @ (if v < 0 then ''-'' else []) @ ds @ '', '' @
            (if v < 0 then ''true'' else ''false'') @ '')'' \<and>
        ds \<noteq> [] \<and> set ds \<subseteq> set ''0123456789'' \<and> (hd ds = CHR ''0'' \<longrightarrow> ds = ''0'') \<and>
        decimal_value ds = nat \<bar>v\<bar>"
proof -
  define ds where "ds = str_nat (nat \<bar>v\<bar>)"
  have "cairo_literal v =
          ''FixedTrait::<FP16x16>::new('' @ (if v < 0 then ''-'' else []) @ ds @ '', '' @
            (if v < 0 then ''true'' else ''false'') @ '')''"
    by (simp add: cairo_literal_def str_int_def ds_def)
  moreover have "ds \<noteq> []"
    by (simp add: ds_def str_nat_not_empty)
  moreover have "set ds \<subseteq> set ''0123456789''"
    unfolding ds_def by (rule str_nat_digits)
  moreover have "hd ds = CHR ''0'' \<longrightarrow> ds = ''0''"
    using str_nat_no_leading_zero [of "nat \<bar>v\<bar>"] str_nat_zero by (auto simp: ds_def)
  moreover have "decimal_value ds = nat \<bar>v\<bar>"
    by (simp add: ds_def decimal_value_str_nat)
  ultimately show ?thesis by blast
qed

section \<open>The calls and the bindings they read\<close>

text \<open>
  A call reads the bindings of the names it resolves and nothing else of the state, and
  it changes nothing. With the names bound as the cell binds them, a call is the
  function with its names resolved.
\<close>

lemma call_round_pair: "call_round x w = (fst (call_round x w), w)"
  by (simp add: call_round_def split: option.splits pyval.splits func.splits)

lemma call_round_same:
  assumes "same_bindings w w'"
  shows "fst (call_round x w) = fst (call_round x w')"
  using assms
  by (simp add: call_round_def same_bindings_def split: option.splits pyval.splits func.splits)

lemma call_round_cell:
  assumes "cell_bindings w"
  shows "call_round x w = (py_round x, w)"
  using assms by (simp add: call_round_def cell_bindings_def)

lemma call_to_fixed_point_pair:
  "call_to_fixed_point val bits w = (fst (call_to_fixed_point val bits w), w)"
  using call_round_pair
  by (simp add: call_to_fixed_point_def split: sum.splits)

lemma call_to_fixed_point_same:
  assumes "same_bindings w w'"
  shows "fst (call_to_fixed_point val bits w) = fst (call_to_fixed_point val bits w')"
  using call_round_same [OF assms]
  by (simp add: call_to_fixed_point_def split: sum.splits)

lemma call_to_fixed_point_cell:
  assumes "cell_bindings w"
  shows "call_to_fixed_point val bits w = to_fixed_point val bits w"
  by (simp add: call_to_fixed_point_def to_fixed_point_def call_round_cell [OF assms]
      split: sum.splits)

lemma call_mnist_image_pair:
  "call_mnist_image_to_fixed_point data w = (fst (call_mnist_image_to_fixed_point data w), w)"
proof (induction data)
  case Nil
  show ?case by simp
next
  case (Cons val data)
  obtain r where r: "call_to_fixed_point val 16 w = (r, w)"
    using call_to_fixed_point_pair by blast
  obtain rs where rs: "call_mnist_image_to_fixed_point data w = (rs, w)"
    using Cons.IH by blast
  show ?case
    by (simp add: r rs split: option.splits pyval.splits func.splits sum.splits)
qed

lemma call_mnist_image_same:
  assumes "same_bindings w w'"
  shows "fst (call_mnist_image_to_fixed_point data w) =
           fst (call_mnist_image_to_fixed_point data w')"
proof (induction data)
  case Nil
  show ?case by simp
next
  case (Cons val data)
  have g: "globals w ''to_fixed_point'' = globals w' ''to_fixed_point''"
    using assms by (simp add: same_bindings_def)
  obtain r where r: "call_to_fixed_point val 16 w = (r, w)" "call_to_fixed_point val 16 w' = (r, w')"
    using call_to_fixed_point_pair call_to_fixed_point_same [OF assms] by metis
  obtain rs where rs: "call_mnist_image_to_fixed_point data w = (rs, w)"
      "call_mnist_image_to_fixed_point data w' = (rs, w')"
    using call_mnist_image_pair Cons.IH by metis
  show ?case
    by (simp add: g r rs split: option.splits pyval.splits func.splits sum.splits)
qed

lemma call_mnist_image_cell:
  assumes "cell_bindings w"
  shows "call_mnist_image_to_fixed_point data w = mnist_image_to_fixed_point data w"
proof (induction data)
  case Nil
  show ?case by simp
next
  case (Cons val data)
  have g: "globals w ''to_fixed_point'' = Some (FunV ToFixedPoint)"
    using assms by (simp add: cell_bindings_def)
  obtain r where r: "to_fixed_point val 16 w = (r, w)"
    using to_fixed_point_pair by blast
  show ?case
    by (simp add: g call_to_fixed_point_cell [OF assms] r Cons.IH split: sum.splits)
qed

lemma call_generate_pair:
  "call_generate_input_cairo data w = (fst (call_generate_input_cairo data w), w)"
proof -
  obtain rs where "call_mnist_image_to_fixed_point data w = (rs, w)"
    using call_mnist_image_pair by blast
  then show ?thesis
    by (simp add: call_generate_input_cairo_def
        split: option.splits pyval.splits func.splits sum.splits)
qed

lemma call_generate_same:
  assumes "same_bindings w w'"
  shows "fst (call_generate_input_cairo data w) = fst (call_generate_input_cairo data w')"
proof -
  have g: "globals w ''mnist_image_to_fixed_point'' = globals w' ''mnist_image_to_fixed_point''"
    using assms by (simp add: same_bindings_def)
  obtain rs where "call_mnist_image_to_fixed_point data w = (rs, w)"
      "call_mnist_image_to_fixed_point data w' = (rs, w')"
    using call_mnist_image_pair call_mnist_image_same [OF assms] by metis
  then show ?thesis
    by (simp add: call_generate_input_cairo_def g
        split: option.splits pyval.splits func.splits sum.splits)
qed

lemma call_generate_cell:
  assumes "cell_bindings w"
  shows "call_generate_input_cairo data w = generate_input_cairo data w"
proof -
  have "globals w ''mnist_image_to_fixed_point'' = Some (FunV MnistImageToFixedPoint)"
    using assms by (simp add: cell_bindings_def)
  then show ?thesis
    by (simp add: call_generate_input_cairo_def generate_input_cairo_def
        call_mnist_image_cell [OF assms])
qed

lemma calls_leave_state:
  "snd (call_to_fixed_point val bits w) = w \<and>
   snd (call_mnist_image_to_fixed_point data w) = w \<and>
   snd (call_generate_input_cairo data w) = w"
  using call_to_fixed_point_pair [of val bits w] call_mnist_image_pair [of data w]
    call_generate_pair [of data w]
  by (metis snd_conv)

lemma cell_world_bindings: "cell_bindings cell_world"
  by (simp add: cell_bindings_def cell_world_def)

lemma one_is_65536: "to_fixed_point (Finite 1 0) 16 w = (Inr 65536, w)"
proof -
  have "in_range (Finite 1 0) 16"
    by (simp add: in_range_def dyadic_def)
  then show ?thesis
    by (simp add: to_fixed_point_in_range dyadic_def nearest_even_def Let_def)
qed

text \<open>
  C4. As stated the claim fails: the result does not depend on the arguments alone,
  the functions read the module's globals to find what they call. On the same
  argument \<open>[1.0]\<close>, \<open>mnist_image_to_fixed_point\<close> returns \<open>[65536]\<close> in the state the
  cell leaves and raises \<open>TypeError\<close> once \<open>to_fixed_point\<close> is rebound to a string;
  \<open>to_fixed_point(1.0, 16)\<close> raises \<open>TypeError\<close> once a global \<open>round\<close> bound to
  \<open>None\<close> shadows the builtin; \<open>generate_input_cairo\<close> raises \<open>NameError\<close> once
  \<open>mnist_image_to_fixed_point\<close> is deleted.
\<close>

theorem rebinding_changes_result:
  "fst (call_mnist_image_to_fixed_point [Finite 1 0] cell_world) = Inr [65536] \<and>
   fst (call_mnist_image_to_fixed_point [Finite 1 0]
         (cell_world\<lparr>globals := (globals cell_world)(''to_fixed_point'' \<mapsto> StrV ''abc'')\<rparr>)) =
     Inl TypeError \<and>
   fst (call_to_fixed_point (Finite 1 0) 16 cell_world) = Inr 65536 \<and>
   fst (call_to_fixed_point (Finite 1 0) 16
         (cell_world\<lparr>globals := (globals cell_world)(''round'' \<mapsto> NoneV)\<rparr>)) = Inl TypeError \<and>
   fst (call_generate_input_cairo [Finite 1 0] cell_world) =
     Inr ''FixedTrait::<FP16x16>::new(65536, false)'' \<and>
   fst (call_generate_input_cairo [Finite 1 0]
         (cell_world\<lparr>globals := (globals cell_world)(''mnist_image_to_fixed_point'' := None)\<rparr>)) =
     Inl NameError"
proof -
  have s: "str_int 65536 = ''65536''"
    by (simp add: str_int_def str_nat_small str_nat_large digit_char_def)
  have a: "fst (call_mnist_image_to_fixed_point [Finite 1 0] cell_world) = Inr [65536]"
    by (simp add: call_mnist_image_cell [OF cell_world_bindings] one_is_65536)
  have b: "fst (call_to_fixed_point (Finite 1 0) 16 cell_world) = Inr 65536"
    by (simp add: call_to_fixed_point_cell [OF cell_world_bindings] one_is_65536)
  have c: "fst (call_generate_input_cairo [Finite 1 0] cell_world) =
     Inr ''FixedTrait::<FP16x16>::new(65536, false)''"
    by (simp add: call_generate_cell [OF cell_world_bindings] generate_input_cairo_def
        one_is_65536 cairo_literal_def s)
  have d: "fst (call_mnist_image_to_fixed_point [Finite 1 0]
         (cell_world\<lparr>globals := (globals cell_world)(''to_fixed_point'' \<mapsto> StrV ''abc'')\<rparr>)) =
     Inl TypeError"
    by simp
  have "pow2 16 = Inr (PyInt (2 ^ nat 16))" by (rule pow2_nonneg) simp
  then have e: "fst (call_to_fixed_point (Finite 1 0) 16
         (cell_world\<lparr>globals := (globals cell_world)(''round'' \<mapsto> NoneV)\<rparr>)) = Inl TypeError"
    by (simp only: call_to_fixed_point_def py_mul_16 sum.case)
       (simp add: call_round_def)
  have f: "fst (call_generate_input_cairo [Finite 1 0]
         (cell_world\<lparr>globals := (globals cell_world)(''mnist_image_to_fixed_point'' := None)\<rparr>)) =
     Inl NameError"
    by (simp add: call_generate_input_cairo_def)
  show ?thesis
    using a b c d e f by blast
qed

text \<open>
  C4, amended. The functions are deterministic and read nothing of the state but the
  bindings of the names they call. For every input, in every state that binds
  \<open>round\<close>, \<open>to_fixed_point\<close> and \<open>mnist_image_to_fixed_point\<close> as the cell does
  (\<open>round\<close> being the builtin), the result of a call of \<open>to_fixed_point\<close>,
  \<open>mnist_image_to_fixed_point\<close> or \<open>generate_input_cairo\<close> depends on the arguments
  alone, whatever else the globals and the file system hold. With these names rebound
  among the objects of the cell (its three functions, a string, \<open>None\<close>) or unbound,
  the result is the same in any two states that bind the three names alike.
\<close>

theorem calls_read_only_bindings:
  "(same_bindings w w' \<longrightarrow>
      fst (call_to_fixed_point val bits w) = fst (call_to_fixed_point val bits w') \<and>
      fst (call_mnist_image_to_fixed_point data w) =
        fst (call_mnist_image_to_fixed_point data w') \<and>
      fst (call_generate_input_cairo data w) = fst (call_generate_input_cairo data w')) \<and>
   (cell_bindings w \<and> cell_bindings w' \<longrightarrow>
      fst (call_to_fixed_point val bits w) = fst (to_fixed_point val bits w') \<and>
      fst (call_mnist_image_to_fixed_point data w) = fst (mnist_image_to_fixed_point data w') \<and>
      fst (call_generate_input_cairo data w) = fst (generate_input_cairo data w'))"
proof (intro conjI impI)
  assume s: "same_bindings w w'"
  show "fst (call_to_fixed_point val bits w) = fst (call_to_fixed_point val bits w')"
    by (rule call_to_fixed_point_same [OF s])
  show "fst (call_mnist_image_to_fixed_point data w) =
      fst (call_mnist_image_to_fixed_point data w')"
    by (rule call_mnist_image_same [OF s])
  show "fst (call_generate_input_cairo data w) = fst (call_generate_input_cairo data w')"
    by (rule call_generate_same [OF s])
next
  assume c: "cell_bindings w \<and> cell_bindings w'"
  show "fst (call_to_fixed_point val bits w) = fst (to_fixed_point val bits w')"
    using c to_fixed_point_result [of val bits w w'] by (simp add: call_to_fixed_point_cell)
  show "fst (call_mnist_image_to_fixed_point data w) = fst (mnist_image_to_fixed_point data w')"
    using c mnist_image_result [of data w w'] by (simp add: call_mnist_image_cell)
  show "fst (call_generate_input_cairo data w) = fst (generate_input_cairo data w')"
    using c generate_input_cairo_result [of data w w'] by (simp add: call_generate_cell)
qed

theorem calls_read_only_bindings_witness:
  "cell_bindings cell_world \<and>
   cell_bindings (cell_world\<lparr>globals := (globals cell_world)(''input_cairo'' \<mapsto> StrV ''abc''),
                              files := [''notes.txt'' \<mapsto> ''abc'']\<rparr>) \<and>
   same_bindings cell_world
     (cell_world\<lparr>globals := (globals cell_world)(''input_cairo'' \<mapsto> StrV ''abc''),
                  files := [''notes.txt'' \<mapsto> ''abc'']\<rparr>) \<and>
   fst (call_mnist_image_to_fixed_point [Finite 1 0]
         (cell_world\<lparr>globals := (globals cell_world)(''input_cairo'' \<mapsto> StrV ''abc''),
                      files := [''notes.txt'' \<mapsto> ''abc'']\<rparr>)) = Inr [65536] \<and>
   fst (call_generate_input_cairo [Finite 1 0]
         (cell_world\<lparr>globals := (globals cell_world)(''input_cairo'' \<mapsto> StrV ''abc''),
                      files := [''notes.txt'' \<mapsto> ''abc'']\<rparr>)) =
     Inr ''FixedTrait::<FP16x16>::new(65536, false)''"
proof -
  have s: "str_int 65536 = ''65536''"
    by (simp add: str_int_def str_nat_small str_nat_large digit_char_def)
  have c: "cell_bindings cell_world"
      "cell_bindings (cell_world\<lparr>globals := (globals cell_world)(''input_cairo'' \<mapsto> StrV ''abc''),
                              files := [''notes.txt'' \<mapsto> ''abc'']\<rparr>)"
    by (simp_all add: cell_bindings_def cell_world_def)
  have b: "same_bindings cell_world
     (cell_world\<lparr>globals := (globals cell_world)(''input_cairo'' \<mapsto> StrV ''abc''),
                  files := [''notes.txt'' \<mapsto> ''abc'']\<rparr>)"
    by (simp add: same_bindings_def cell_world_def)
  have m: "fst (mnist_image_to_fixed_point [Finite 1 0] cell_world) = Inr [65536]"
    by (simp add: one_is_65536)
  have g: "fst (generate_input_cairo [Finite 1 0] cell_world) =
      Inr ''FixedTrait::<FP16x16>::new(65536, false)''"
    by (simp add: generate_input_cairo_def one_is_65536 cairo_literal_def s)
  let ?W = "cell_world\<lparr>globals := (globals cell_world)(''input_cairo'' \<mapsto> StrV ''abc''),
                      files := [''notes.txt'' \<mapsto> ''abc'']\<rparr>"
  have "fst (call_mnist_image_to_fixed_point [Finite 1 0] ?W) =
          fst (mnist_image_to_fixed_point [Finite 1 0] cell_world)"
      "fst (call_generate_input_cairo [Finite 1 0] ?W) =
          fst (generate_input_cairo [Finite 1 0] cell_world)"
    using calls_read_only_bindings [of ?W cell_world "Finite 1 0" 16 "[Finite 1 0]"] c
    by blast+
  then show ?thesis
    using c b by (simp only: m g simp_thms)
qed

section \<open>Quantisation\<close>

text \<open>
  C1. As stated the claim fails: not every float and exponent has a quantisation.
  \<open>to_fixed_point(nan, 16)\<close> raises \<open>ValueError\<close>. \<open>to_fixed_point(inf, 16)\<close> raises
  \<open>OverflowError\<close>, and so do \<open>to_fixed_point(1.0, 1024)\<close> (the integer \<open>2 ** 1024\<close>
  does not convert to a float), \<open>to_fixed_point(1.0, -(2 ** 1024 - 2 ** 970))\<close> (nor
  does this exponent) and \<open>to_fixed_point(2.0 ** 1008, 16)\<close> (the product is infinite).
\<close>

theorem to_fixed_point_not_total:
  "fst (to_fixed_point NaN 16 initial_world) = Inl ValueError \<and>
   fst (to_fixed_point PInf 16 initial_world) = Inl OverflowError \<and>
   is_double (Finite 1 0) \<and>
   fst (to_fixed_point (Finite 1 0) 1024 initial_world) = Inl OverflowError \<and>
   fst (to_fixed_point (Finite 1 0) (- (2 ^ 1024 - 2 ^ 970)) initial_world) = Inl OverflowError \<and>
   is_double (Finite (2 ^ 52) 956) \<and>
   fst (to_fixed_point (Finite (2 ^ 52) 956) 16 initial_world) = Inl OverflowError"
proof -
  have p: "pow2 (- (2 ^ 1024 - 2 ^ 970)) = Inl OverflowError"
    by (rule pow2_overflow) simp
  have "to_fixed_point (Finite 1 0) (- (2 ^ 1024 - 2 ^ 970)) initial_world =
      (Inl OverflowError, initial_world)"
    by (simp only: to_fixed_point_def p sum.case)
  then have low: "fst (to_fixed_point (Finite 1 0) (- (2 ^ 1024 - 2 ^ 970)) initial_world) =
      Inl OverflowError"
    by (simp only: fst_conv)
  have "to_fixed_point (Finite (2 ^ 52) 956) 16 initial_world = (Inl OverflowError, initial_world)"
    by (rule product_overflows) (simp_all add: dyadic_def)
  then have big: "fst (to_fixed_point (Finite (2 ^ 52) 956) 16 initial_world) = Inl OverflowError"
    by (simp only: fst_conv)
  have rest: "fst (to_fixed_point NaN 16 initial_world) = Inl ValueError"
      "fst (to_fixed_point PInf 16 initial_world) = Inl OverflowError"
      "is_double (Finite 1 0)"
      "fst (to_fixed_point (Finite 1 0) 1024 initial_world) = Inl OverflowError"
      "is_double (Finite (2 ^ 52) 956)"
    by (simp_all add: to_fixed_point_NaN to_fixed_point_PInf to_fixed_point_big_bits)
  show ?thesis
    using low big rest by blast
qed

text \<open>
  C1, amended. For every finite binary64 value \<open>val\<close> and every integer \<open>bits\<close> with
  \<open>- (2 ^ 1024 - 2 ^ 970) < bits < 1024\<close> and \<open>\<bar>val * 2 ^ bits\<bar> < 2 ^ 1024\<close>,
  \<open>to_fixed_point(val, bits)\<close> returns the integer nearest to the exact product
  \<open>val * 2 ^ bits\<close>, a tie going to the even integer; and \<open>mnist_image_to_fixed_point\<close>
  quantises each such pixel with \<open>bits = 16\<close>.
\<close>

theorem to_fixed_point_quantizes:
  "(is_double val \<and> in_range val bits \<longrightarrow>
      fst (to_fixed_point val bits w) = Inr (nearest_even (value_of val * 2 powi bits))) \<and>
   ((\<forall>x\<in>set data. is_double x \<and> in_range x 16) \<longrightarrow>
      fst (mnist_image_to_fixed_point data w) =
        Inr (map (\<lambda>x. nearest_even (value_of x * 2 ^ 16)) data))"
  by (simp add: to_fixed_point_in_range mnist_image_in_range)

theorem to_fixed_point_quantizes_witness:
  "is_double (Finite (- 5404319552844595) (- 54)) \<and>
   in_range (Finite (- 5404319552844595) (- 54)) 16 \<and>
   is_double (Finite 3 (- 1)) \<and> in_range (Finite 3 (- 1)) 16 \<and>
   fst (to_fixed_point (Finite (- 5404319552844595) (- 54)) 16 initial_world) = Inr (- 19661) \<and>
   fst (mnist_image_to_fixed_point [Finite 3 (- 1), Finite (- 5404319552844595) (- 54)] initial_world)
     = Inr [98304, - 19661]"
  using to_fixed_point_quantizes [of "Finite (- 5404319552844595) (- 54)" 16 initial_world
      "[Finite 3 (- 1), Finite (- 5404319552844595) (- 54)]"]
  by (simp add: in_range_def dyadic_def nearest_even_def Let_def)

section \<open>Where the functions raise\<close>

text \<open>
  C3. As stated the claim fails: the functions do raise. \<open>to_fixed_point(-inf, 16)\<close>
  raises \<open>OverflowError\<close>, and so do \<open>mnist_image_to_fixed_point\<close> and
  \<open>generate_input_cairo\<close> on an input holding \<open>-inf\<close>; \<open>to_fixed_point(1.0, -2**1024)\<close>
  raises \<open>OverflowError\<close> before any rounding, the exponent not converting to a float.
\<close>

theorem functions_raise:
  "fst (to_fixed_point NInf 16 initial_world) = Inl OverflowError \<and>
   fst (mnist_image_to_fixed_point [NInf] initial_world) = Inl OverflowError \<and>
   fst (generate_input_cairo [NInf] initial_world) = Inl OverflowError \<and>
   fst (to_fixed_point (Finite 1 0) (- (2 ^ 1024)) initial_world) = Inl OverflowError"
proof -
  have p: "pow2 (- (2 ^ 1024)) = Inl OverflowError"
    by (rule pow2_overflow) simp
  have "to_fixed_point (Finite 1 0) (- (2 ^ 1024)) initial_world = (Inl OverflowError, initial_world)"
    by (simp only: to_fixed_point_def p sum.case)
  then have "fst (to_fixed_point (Finite 1 0) (- (2 ^ 1024)) initial_world) = Inl OverflowError"
    by (simp only: fst_conv)
  moreover have "fst (to_fixed_point NInf 16 initial_world) = Inl OverflowError"
    by (simp add: to_fixed_point_NInf)
  moreover have "fst (mnist_image_to_fixed_point [NInf] initial_world) = Inl OverflowError"
    by (simp add: to_fixed_point_NInf)
  moreover have "fst (generate_input_cairo [NInf] initial_world) = Inl OverflowError"
    by (simp add: generate_input_cairo_def to_fixed_point_NInf)
  ultimately show ?thesis by blast
qed

text \<open>
  C3, amended. The functions have no error handling, and they complete and return a
  value exactly on the inputs in range: \<open>to_fixed_point(val, bits)\<close> returns a value if
  and only if \<open>val\<close> is finite, \<open>- (2 ^ 1024 - 2 ^ 970) < bits < 1024\<close> and
  \<open>\<bar>val * 2 ^ bits\<bar> < 2 ^ 1024\<close>; \<open>mnist_image_to_fixed_point\<close> and
  \<open>generate_input_cairo\<close> return a value if and only if every element \<open>x\<close> is finite
  with \<open>\<bar>x\<bar> * 2 ^ 16 < 2 ^ 1024\<close>.
\<close>

theorem functions_return_iff_in_range:
  "(is_double val \<longrightarrow> (\<exists>v. fst (to_fixed_point val bits w) = Inr v) = in_range val bits) \<and>
   ((\<forall>x\<in>set data. is_double x) \<longrightarrow>
      (\<exists>vs. fst (mnist_image_to_fixed_point data w) = Inr vs) = (\<forall>x\<in>set data. in_range x 16) \<and>
      (\<exists>out. fst (generate_input_cairo data w) = Inr out) = (\<forall>x\<in>set data. in_range x 16))"
proof (intro conjI impI)
  assume "is_double val"
  then show "(\<exists>v. fst (to_fixed_point val bits w) = Inr v) = in_range val bits"
    by (rule to_fixed_point_returns_iff)
next
  assume "\<forall>x\<in>set data. is_double x"
  then show "(\<exists>vs. fst (mnist_image_to_fixed_point data w) = Inr vs) =
      (\<forall>x\<in>set data. in_range x 16)"
    by (rule mnist_image_returns_iff)
next
  assume "\<forall>x\<in>set data. is_double x"
  then show "(\<exists>out. fst (generate_input_cairo data w) = Inr out) =
      (\<forall>x\<in>set data. in_range x 16)"
    by (simp only: generate_returns_iff mnist_image_returns_iff)
qed

theorem functions_return_iff_in_range_witness:
  "is_double (Finite 1 0) \<and> in_range (Finite 1 0) 16 \<and>
   (\<exists>v. fst (to_fixed_point (Finite 1 0) 16 initial_world) = Inr v) \<and>
   (\<exists>vs. fst (mnist_image_to_fixed_point [Finite 1 0] initial_world) = Inr vs) \<and>
   (\<exists>out. fst (generate_input_cairo [Finite 1 0] initial_world) = Inr out) \<and>
   is_double PInf \<and> \<not> in_range PInf 16 \<and>
   \<not> (\<exists>out. fst (generate_input_cairo [Finite 1 0, PInf] initial_world) = Inr out)"
proof -
  have a: "is_double (Finite 1 0)" "in_range (Finite 1 0) 16" "is_double PInf" "\<not> in_range PInf 16"
    by (simp_all add: in_range_def dyadic_def)
  show ?thesis
    using functions_return_iff_in_range [of "Finite 1 0" 16 initial_world "[Finite 1 0]"]
      functions_return_iff_in_range [of "Finite 1 0" 16 initial_world "[Finite 1 0, PInf]"] a
    by simp
qed

section \<open>Ties\<close>

text \<open>
  A tie is always in range, as long as \<open>2**bits\<close> converts to a float: a finite float
  times a power of two that is halfway between two integers is small, and the
  exponent cannot be very negative.
\<close>

lemma half_integer_not_small: "1 / 2 \<le> \<bar>of_int k + 1 / 2 :: real\<bar>"
proof (cases "0 \<le> k")
  case True
  then have "(0::real) \<le> of_int k" by simp
  then show ?thesis by linarith
next
  case False
  then have "k \<le> - 1" by simp
  then have "(of_int k :: real) \<le> of_int (- 1)" by (simp only: of_int_le_iff)
  then show ?thesis by simp
qed

lemma half_integer_not_integer: "(of_int k + 1 / 2 :: real) \<noteq> of_int n"
proof
  assume "(of_int k + 1 / 2 :: real) = of_int n"
  then have "(of_int (2 * k + 1) :: real) = of_int (2 * n)" by simp
  then have "2 * k + 1 = 2 * n" by (simp only: of_int_eq_iff)
  then show False by presburger
qed

lemma dyadic_below_top:
  assumes "\<bar>m\<bar> < 2 ^ 53" and "t \<le> 971"
  shows "\<bar>dyadic m t\<bar> < 2 powi 1024"
proof -
  have "(of_int \<bar>m\<bar> :: real) < of_int (2 ^ 53)"
    using assms(1) by (simp only: of_int_less_iff)
  then have "(of_int \<bar>m\<bar> :: real) < 2 powi 53" by simp
  then have "of_int \<bar>m\<bar> * (2::real) powi t < 2 powi 53 * 2 powi t"
    by (intro mult_strict_right_mono) simp_all
  also have "\<dots> = 2 powi (53 + t)"
    by (simp add: power_int_add)
  also have "\<dots> \<le> 2 powi 1024"
    by (rule power_int_increasing) (use assms(2) in simp_all)
  finally show ?thesis
    by (simp add: dyadic_def abs_mult)
qed

lemma tie_in_range:
  assumes dbl: "is_double val" and hi: "bits < 1024"
    and tie: "value_of val * 2 powi bits = of_int k + 1 / 2"
  shows "in_range val bits"
proof -
  have nz: "value_of val * 2 powi bits \<noteq> 0"
    using half_integer_not_integer [of k 0] tie by simp
  then obtain m e where val: "val = Finite m e"
    by (cases val) simp_all
  have me: "\<bar>m\<bar> < 2 ^ 53" "e \<le> 971"
    using dbl by (simp_all add: val)
  have prod: "dyadic m (e + bits) = of_int k + 1 / 2"
    using tie by (simp add: val scaled_value)
  have neg: "e + bits < 0"
  proof (rule ccontr)
    assume "\<not> e + bits < 0"
    then have "dyadic m (e + bits) = of_int (m * 2 ^ nat (e + bits))"
      by (simp add: dyadic_def power_int_def)
    then show False
      using prod half_integer_not_integer [of k "m * 2 ^ nat (e + bits)"] by simp
  qed
  have bound: "\<bar>dyadic m (e + bits)\<bar> < 2 powi 1024"
    by (rule dyadic_below_top [OF me(1)]) (use neg in simp)
  have lo: "- (2 ^ 1024 - 2 ^ 970) < bits"
  proof (rule ccontr)
    assume "\<not> - (2 ^ 1024 - 2 ^ 970) < bits"
    then have "bits \<le> - 1026" by simp
    then have "int 53 + (e + bits) \<le> - 2"
      using me(2) by simp
    moreover have "\<bar>m\<bar> \<le> 2 ^ 53" using me(1) by simp
    ultimately have "\<bar>dyadic m (e + bits)\<bar> < 1 / 2"
      by (intro dyadic_small)
    then show False
      unfolding prod using half_integer_not_small [of k] by linarith
  qed
  have "\<bar>dyadic m e * 2 powi bits\<bar> < 2 powi 1024"
    using bound by (simp only: scaled_value)
  then show ?thesis
    using lo hi by (simp add: in_range_def val)
qed

text \<open>
  C7. As stated the claim fails: a product can be a tie where the code raises.
  At \<open>val = 3 * 2 ^ - 1074\<close> and \<open>bits = 1073\<close> the product \<open>val * 2 ^ bits\<close> is exactly
  \<open>1.5\<close>, halfway between \<open>1\<close> and \<open>2\<close>, and \<open>to_fixed_point\<close> raises
  \<open>OverflowError\<close>, the integer \<open>2 ** 1073\<close> not converting to a float.
\<close>

theorem tie_without_result:
  "is_double (Finite 3 (- 1074)) \<and>
   value_of (Finite 3 (- 1074)) * 2 powi 1073 = of_int 1 + 1 / 2 \<and>
   fst (to_fixed_point (Finite 3 (- 1074)) 1073 initial_world) = Inl OverflowError"
proof -
  have "dyadic 3 (- 1074) * 2 powi 1073 = dyadic 3 (- 1)"
    by (simp only: scaled_value) simp
  then have "value_of (Finite 3 (- 1074)) * 2 powi 1073 = of_int 1 + 1 / 2"
    by (simp add: dyadic_def)
  moreover have "fst (to_fixed_point (Finite 3 (- 1074)) 1073 initial_world) = Inl OverflowError"
    by (simp add: to_fixed_point_big_bits)
  ultimately show ?thesis by simp
qed

text \<open>
  C7, amended. Quantisation rounds ties half-to-even: for every float \<open>val\<close> and every
  \<open>bits < 1024\<close> such that \<open>val * 2 ^ bits\<close> is exactly halfway between two integers
  \<open>k\<close> and \<open>k + 1\<close>, \<open>to_fixed_point(val, bits)\<close> returns the even one of the two
  (\<open>to_fixed_point(0.5, 0) = 0\<close> and \<open>to_fixed_point(1.5, 0) = 2\<close>), not \<open>k + 1\<close> as
  round-half-up would.
\<close>

theorem ties_round_to_even:
  assumes "is_double val" and "bits < 1024"
    and "value_of val * 2 powi bits = of_int k + 1 / 2"
  shows "fst (to_fixed_point val bits w) = Inr (if even k then k else k + 1)"
proof -
  have "in_range val bits"
    using assms by (rule tie_in_range)
  then have "to_fixed_point val bits w = (Inr (nearest_even (of_int k + 1 / 2)), w)"
    using to_fixed_point_in_range [OF assms(1), of bits w] assms(3) by simp
  then show ?thesis
    by (simp add: nearest_even_half)
qed

theorem ties_round_to_even_witness:
  "is_double (Finite 1 (- 1)) \<and>
   value_of (Finite 1 (- 1)) * 2 powi 0 = of_int 0 + 1 / 2 \<and>
   fst (to_fixed_point (Finite 1 (- 1)) 0 initial_world) = Inr 0 \<and>
   is_double (Finite 3 (- 1)) \<and>
   value_of (Finite 3 (- 1)) * 2 powi 0 = of_int 1 + 1 / 2 \<and>
   fst (to_fixed_point (Finite 3 (- 1)) 0 initial_world) = Inr 2"
proof -
  have a: "is_double (Finite 1 (- 1))" "value_of (Finite 1 (- 1)) * 2 powi 0 = of_int 0 + 1 / 2"
      "is_double (Finite 3 (- 1))" "value_of (Finite 3 (- 1)) * 2 powi 0 = of_int 1 + 1 / 2"
    by (simp_all add: dyadic_def)
  have "fst (to_fixed_point (Finite 1 (- 1)) 0 initial_world) = Inr (if even (0::int) then 0 else 0 + 1)"
    by (rule ties_round_to_even [OF a(1) _ a(2)]) simp
  moreover have "fst (to_fixed_point (Finite 3 (- 1)) 0 initial_world) =
      Inr (if even (1::int) then 1 else 1 + 1)"
    by (rule ties_round_to_even [OF a(3) _ a(4)]) simp
  ultimately show ?thesis
    using a by simp
qed

section \<open>Serialisation\<close>

text \<open>
  C2. As stated the claim fails: \<open>generate_input_cairo\<close> does not return a serialisation
  for every sequence of floats. On \<open>[nan]\<close> it raises \<open>ValueError\<close>, and on the finite
  \<open>[2.0 ** 1008]\<close> it raises \<open>OverflowError\<close>, the product with \<open>2 ** 16\<close> being
  infinite.
\<close>

theorem generate_input_cairo_not_total:
  "fst (generate_input_cairo [NaN] initial_world) = Inl ValueError \<and>
   is_double (Finite (2 ^ 52) 956) \<and>
   fst (generate_input_cairo [Finite (2 ^ 52) 956] initial_world) = Inl OverflowError"
proof -
  have "to_fixed_point (Finite (2 ^ 52) 956) 16 initial_world = (Inl OverflowError, initial_world)"
    by (rule product_overflows) (simp_all add: dyadic_def)
  then show ?thesis
    by (simp add: generate_input_cairo_def to_fixed_point_NaN)
qed

text \<open>
  C2, amended. For every input sequence of finite binary64 values \<open>x\<close> with
  \<open>\<bar>x\<bar> * 2 ^ 16 < 2 ^ 1024\<close>, \<open>generate_input_cairo\<close> returns the
  \<open>",\n "\<close>-separated concatenation, in input order, of one string
  \<open>FixedTrait::<FP16x16>::new({v}, {s})\<close> per element, where
  \<open>v = to_fixed_point(element, 16)\<close> and \<open>s\<close> is \<open>true\<close> when \<open>v < 0\<close> and
  \<open>false\<close> otherwise.
\<close>

theorem generate_input_cairo_serializes:
  assumes "\<forall>x\<in>set data. is_double x \<and> in_range x 16"
  shows "\<exists>vs. list_all2 (\<lambda>x v. fst (to_fixed_point x 16 w) = Inr v) data vs \<and>
           fst (generate_input_cairo data w) =
             Inr (join [CHR '','', CHR 0x0A, CHR '' '']
                   (map (\<lambda>v. ''FixedTrait::<FP16x16>::new('' @ str_int v @ '', '' @
                               (if v < 0 then ''true'' else ''false'') @ '')'') vs))"
proof -
  define vs where "vs = map (\<lambda>x. nearest_even (value_of x * 2 ^ 16)) data"
  have m: "fst (mnist_image_to_fixed_point data w) = Inr vs"
    by (simp add: mnist_image_in_range [OF assms] vs_def)
  then have l: "list_all2 (\<lambda>x v. fst (to_fixed_point x 16 w) = Inr v) data vs"
    by (simp only: mnist_image_all2)
  show ?thesis
  proof (intro exI conjI)
    show "list_all2 (\<lambda>x v. fst (to_fixed_point x 16 w) = Inr v) data vs"
      by (rule l)
    show "fst (generate_input_cairo data w) =
             Inr (join [CHR '','', CHR 0x0A, CHR '' '']
                   (map (\<lambda>v. ''FixedTrait::<FP16x16>::new('' @ str_int v @ '', '' @
                               (if v < 0 then ''true'' else ''false'') @ '')'') vs))"
    proof -
      have "map cairo_literal vs =
              map (\<lambda>v. ''FixedTrait::<FP16x16>::new('' @ str_int v @ '', '' @
                               (if v < 0 then ''true'' else ''false'') @ '')'') vs"
        by (rule map_cong) (simp_all add: cairo_literal_def)
      then show ?thesis
        by (simp only: generate_from_values [OF m] separator_def fst_conv)
    qed
  qed
qed

theorem generate_input_cairo_serializes_witness:
  "is_double (Finite (- 5404319552844595) (- 54)) \<and> in_range (Finite (- 5404319552844595) (- 54)) 16 \<and>
   is_double (Finite 1 0) \<and> in_range (Finite 1 0) 16 \<and>
   fst (to_fixed_point (Finite (- 5404319552844595) (- 54)) 16 initial_world) = Inr (- 19661) \<and>
   fst (to_fixed_point (Finite 1 0) 16 initial_world) = Inr 65536 \<and>
   fst (generate_input_cairo [Finite (- 5404319552844595) (- 54), Finite 1 0] initial_world) =
     Inr (''FixedTrait::<FP16x16>::new(-19661, true),'' @ [CHR 0x0A] @
          '' FixedTrait::<FP16x16>::new(65536, false)'')"
proof -
  have a: "is_double (Finite (- 5404319552844595) (- 54))"
      "in_range (Finite (- 5404319552844595) (- 54)) 16"
      "is_double (Finite 1 0)" "in_range (Finite 1 0) 16"
    by (simp_all add: in_range_def dyadic_def)
  have q: "fst (to_fixed_point (Finite (- 5404319552844595) (- 54)) 16 initial_world) = Inr (- 19661)"
      "fst (to_fixed_point (Finite 1 0) 16 initial_world) = Inr 65536"
    using a by (simp_all add: to_fixed_point_in_range dyadic_def nearest_even_def Let_def)
  have s: "str_int (- 19661) = ''-19661''" "str_int 65536 = ''65536''"
    by (simp_all add: str_int_def str_nat_small str_nat_large digit_char_def)
  show ?thesis
    using generate_input_cairo_serializes
      [of "[Finite (- 5404319552844595) (- 54), Finite 1 0]" initial_world]
    by (simp add: a q s list_all2_Cons1)
qed

section \<open>The sign of a literal\<close>

text \<open>
  C6. Whenever \<open>generate_input_cairo\<close> returns, its output holds one literal per
  element, in order, each but the last followed by \<open>",\n "\<close>. The literal of an element
  whose quantisation \<open>v\<close> is negative is \<open>FixedTrait::<FP16x16>::new(-d, true)\<close> with
  \<open>d\<close> the decimal digits of \<open>\<bar>v\<bar>\<close> (no leading zero): the signed value itself, not its
  absolute value, is the first argument. The literal of any other element is
  \<open>FixedTrait::<FP16x16>::new(d, false)\<close>. So the first argument is negative exactly when
  the flag is \<open>true\<close>.
\<close>

theorem negative_literal_keeps_sign:
  assumes "fst (generate_input_cairo data w) = Inr out"
  shows "\<exists>vs lits.
           list_all2 (\<lambda>x v. fst (to_fixed_point x 16 w) = Inr v) data vs \<and>
           list_all2 (\<lambda>v lit. \<exists>ds.
               lit = ''FixedTrait::<FP16x16>::new('' @ (if v < 0 then ''-'' else []) @ ds @
                       '', '' @ (if v < 0 then ''true'' else ''false'') @ '')'' \<and>
               ds \<noteq> [] \<and> set ds \<subseteq> set ''0123456789'' \<and>
               (hd ds = CHR ''0'' \<longrightarrow> ds = ''0'') \<and>
               decimal_value ds = nat \<bar>v\<bar>) vs lits \<and>
           out = (if lits = [] then []
                  else concat (map (\<lambda>lit. lit @ [CHR '','', CHR 0x0A, CHR '' '']) (butlast lits)) @
                       last lits)"
proof -
  obtain vs where vs: "fst (mnist_image_to_fixed_point data w) = Inr vs"
      "out = join separator (map cairo_literal vs)"
    using generate_returns [OF assms] by blast
  have a: "list_all2 (\<lambda>x v. fst (to_fixed_point x 16 w) = Inr v) data vs"
    using vs(1) by (simp only: mnist_image_all2)
  have b: "list_all2 (\<lambda>v lit. \<exists>ds.
               lit = ''FixedTrait::<FP16x16>::new('' @ (if v < 0 then ''-'' else []) @ ds @
                       '', '' @ (if v < 0 then ''true'' else ''false'') @ '')'' \<and>
               ds \<noteq> [] \<and> set ds \<subseteq> set ''0123456789'' \<and>
               (hd ds = CHR ''0'' \<longrightarrow> ds = ''0'') \<and>
               decimal_value ds = nat \<bar>v\<bar>) vs (map cairo_literal vs)"
    unfolding list_all2_map2 by (rule list_all2_refl) (rule cairo_literal_text)
  have c: "out = (if map cairo_literal vs = [] then []
                  else concat (map (\<lambda>lit. lit @ [CHR '','', CHR 0x0A, CHR '' ''])
                                 (butlast (map cairo_literal vs))) @
                       last (map cairo_literal vs))"
    unfolding vs(2) separator_def by (rule join_concat)
  show ?thesis
    using a b c by blast
qed

theorem negative_literal_keeps_sign_witness:
  "fst (to_fixed_point (Finite (- 5404319552844595) (- 54)) 16 initial_world) = Inr (- 19661) \<and>
   fst (to_fixed_point (Finite 1 0) 16 initial_world) = Inr 65536 \<and>
   fst (to_fixed_point (Finite (- 1) 0) 16 initial_world) = Inr (- 65536) \<and>
   fst (generate_input_cairo [Finite (- 5404319552844595) (- 54), Finite 1 0, Finite (- 1) 0]
         initial_world) =
     Inr (''FixedTrait::<FP16x16>::new(-19661, true),'' @ [CHR 0x0A] @
          '' FixedTrait::<FP16x16>::new(65536, false),'' @ [CHR 0x0A] @
          '' FixedTrait::<FP16x16>::new(-65536, true)'') \<and>
   decimal_value ''19661'' = 19661 \<and> decimal_value ''65536'' = 65536"
proof -
  have a: "in_range (Finite (- 5404319552844595) (- 54)) 16" "in_range (Finite 1 0) 16"
      "in_range (Finite (- 1) 0) 16"
    by (simp_all add: in_range_def dyadic_def)
  have q: "to_fixed_point (Finite (- 5404319552844595) (- 54)) 16 initial_world =
        (Inr (- 19661), initial_world)"
      "to_fixed_point (Finite 1 0) 16 initial_world = (Inr 65536, initial_world)"
      "to_fixed_point (Finite (- 1) 0) 16 initial_world = (Inr (- 65536), initial_world)"
    using a by (simp_all add: to_fixed_point_in_range dyadic_def nearest_even_def Let_def)
  have s: "str_nat 19661 = ''19661''" "str_nat 65536 = ''65536''"
    by (simp_all add: str_nat_small str_nat_large digit_char_def)
  have d: "decimal_value ''19661'' = 19661" "decimal_value ''65536'' = 65536"
    by (simp_all add: decimal_value_def digit_value_def)
  have g: "fst (generate_input_cairo [Finite (- 5404319552844595) (- 54), Finite 1 0, Finite (- 1) 0]
         initial_world) =
     Inr (''FixedTrait::<FP16x16>::new(-19661, true),'' @ [CHR 0x0A] @
          '' FixedTrait::<FP16x16>::new(65536, false),'' @ [CHR 0x0A] @
          '' FixedTrait::<FP16x16>::new(-65536, true)'')"
    by (simp add: generate_input_cairo_def q cairo_literal_def str_int_def s separator_def)
  obtain vs where
      "list_all2 (\<lambda>x v. fst (to_fixed_point x 16 initial_world) = Inr v)
         [Finite (- 5404319552844595) (- 54), Finite 1 0, Finite (- 1) 0] vs"
    using negative_literal_keeps_sign [OF g] by blast
  then show ?thesis
    using g d by (simp add: q)
qed

section \<open>Length and order\<close>

text \<open>
  C8. As stated the claim fails: a two-element input need not give two values. On
  \<open>[1.0, nan]\<close> the comprehension raises \<open>ValueError\<close> at the second element, on
  \<open>[1.0, 2.0 ** 1008]\<close> it raises \<open>OverflowError\<close> there, and both functions return
  nothing.
\<close>

theorem two_elements_no_values:
  "is_double (Finite 1 0) \<and> is_double NaN \<and>
   fst (mnist_image_to_fixed_point [Finite 1 0, NaN] initial_world) = Inl ValueError \<and>
   fst (generate_input_cairo [Finite 1 0, NaN] initial_world) = Inl ValueError \<and>
   is_double (Finite (2 ^ 52) 956) \<and>
   fst (mnist_image_to_fixed_point [Finite 1 0, Finite (2 ^ 52) 956] initial_world) =
     Inl OverflowError \<and>
   fst (generate_input_cairo [Finite 1 0, Finite (2 ^ 52) 956] initial_world) = Inl OverflowError"
proof -
  have "in_range (Finite 1 0) 16"
    by (simp add: in_range_def dyadic_def)
  then have one: "to_fixed_point (Finite 1 0) 16 initial_world =
      (Inr (nearest_even (value_of (Finite 1 0) * 2 powi 16)), initial_world)"
    by (intro to_fixed_point_in_range) simp_all
  have big: "to_fixed_point (Finite (2 ^ 52) 956) 16 initial_world =
      (Inl OverflowError, initial_world)"
    by (rule product_overflows) (simp_all add: dyadic_def)
  show ?thesis
    using big by (simp add: generate_input_cairo_def to_fixed_point_NaN one)
qed

text \<open>
  C8, amended. For every input list of \<open>n\<close> finite binary64 values \<open>x\<close> with
  \<open>\<bar>x\<bar> * 2 ^ 16 < 2 ^ 1024\<close>, \<open>mnist_image_to_fixed_point\<close> returns exactly \<open>n\<close>
  values, the \<open>i\<close>-th equal to \<open>to_fixed_point\<close> of the \<open>i\<close>-th input, and
  \<open>generate_input_cairo\<close> emits exactly \<open>n\<close> literals in the same order (the output
  holds \<open>n\<close> opening parentheses, one per literal); for \<open>n = 0\<close> it returns the empty
  string.
\<close>

theorem length_and_order_preserved:
  assumes "\<forall>x\<in>set data. is_double x \<and> in_range x 16"
  shows "\<exists>vs out.
           fst (mnist_image_to_fixed_point data w) = Inr vs \<and>
           length vs = length data \<and>
           (\<forall>i<length data. fst (to_fixed_point (data ! i) 16 w) = Inr (vs ! i)) \<and>
           fst (generate_input_cairo data w) = Inr out \<and>
           out = join separator (map cairo_literal vs) \<and>
           count_list out (CHR ''('') = length data \<and>
           (data = [] \<longrightarrow> out = [])"
proof -
  define vs where "vs = map (\<lambda>x. nearest_even (value_of x * 2 ^ 16)) data"
  define out where "out = join separator (map cairo_literal vs)"
  have m: "fst (mnist_image_to_fixed_point data w) = Inr vs"
    by (simp add: mnist_image_in_range [OF assms] vs_def)
  have len: "length vs = length data"
    by (simp add: vs_def)
  have "list_all2 (\<lambda>x v. fst (to_fixed_point x 16 w) = Inr v) data vs"
    using m by (simp only: mnist_image_all2)
  then have nth: "\<forall>i<length data. fst (to_fixed_point (data ! i) 16 w) = Inr (vs ! i)"
    by (simp add: list_all2_conv_all_nth)
  have g: "fst (generate_input_cairo data w) = Inr out"
    by (simp add: generate_from_values [OF m] out_def)
  have c: "count_list out (CHR ''('') = length data"
    by (simp only: out_def count_paren_join len)
  have e: "data = [] \<longrightarrow> out = []"
    by (simp add: out_def vs_def)
  show ?thesis
    using m len nth g c e out_def by blast
qed

theorem length_and_order_preserved_witness:
  "is_double (Finite 3 (- 1)) \<and> in_range (Finite 3 (- 1)) 16 \<and>
   is_double (Finite (- 1) 0) \<and> in_range (Finite (- 1) 0) 16 \<and>
   fst (mnist_image_to_fixed_point [Finite 3 (- 1), Finite (- 1) 0] initial_world) =
     Inr [98304, - 65536] \<and>
   fst (generate_input_cairo [Finite 3 (- 1), Finite (- 1) 0] initial_world) =
     Inr (''FixedTrait::<FP16x16>::new(98304, false),'' @ [CHR 0x0A] @
          '' FixedTrait::<FP16x16>::new(-65536, true)'') \<and>
   fst (generate_input_cairo [] initial_world) = Inr []"
proof -
  have a: "is_double (Finite 3 (- 1))" "in_range (Finite 3 (- 1)) 16"
      "is_double (Finite (- 1) 0)" "in_range (Finite (- 1) 0) 16"
    by (simp_all add: in_range_def dyadic_def)
  then have h: "\<forall>x\<in>set [Finite 3 (- 1), Finite (- 1) 0]. is_double x \<and> in_range x 16"
    by simp
  have q: "fst (to_fixed_point (Finite 3 (- 1)) 16 initial_world) = Inr 98304"
      "fst (to_fixed_point (Finite (- 1) 0) 16 initial_world) = Inr (- 65536)"
    using a by (simp_all add: to_fixed_point_in_range dyadic_def nearest_even_def Let_def)
  have s: "str_int 98304 = ''98304''" "str_int (- 65536) = ''-65536''"
    by (simp_all add: str_int_def str_nat_small str_nat_large digit_char_def)
  obtain vs out where r:
      "fst (mnist_image_to_fixed_point [Finite 3 (- 1), Finite (- 1) 0] initial_world) = Inr vs"
      "length vs = length [Finite 3 (- 1), Finite (- 1) 0]"
      "\<forall>i<length [Finite 3 (- 1), Finite (- 1) 0].
         fst (to_fixed_point ([Finite 3 (- 1), Finite (- 1) 0] ! i) 16 initial_world) = Inr (vs ! i)"
      "fst (generate_input_cairo [Finite 3 (- 1), Finite (- 1) 0] initial_world) = Inr out"
      "out = join separator (map cairo_literal vs)"
    using length_and_order_preserved [OF h, of initial_world] by blast
  have "vs ! 0 = 98304" "vs ! 1 = - 65536"
    using r(3) q by (auto simp: nth_Cons')
  then have vs: "vs = [98304, - 65536]"
    using r(2) by (cases vs; cases "tl vs") auto
  have e: "fst (generate_input_cairo [] initial_world) = Inr []"
    using length_and_order_preserved [of "[]" initial_world] by auto
  show ?thesis
    using a r(1,4,5) e
    by (simp add: vs s cairo_literal_def separator_def)
qed

end
